theory Spec2Isabelle
  imports Complex_Main
begin

section \<open>PTDetector: the per-image detection call of pytorch\_detector.py\<close>

text \<open>
  The development embeds \<^verbatim>\<open>PTDetector.generate_detections_one_image\<close>
  (src/detection/pytorch\_detector.py, lines 69 to 196) and the part of
  \<^verbatim>\<open>PTDetector.__init__\<close> that sets the two flags the call reads.

  Everything the method imports is outside the file: numpy and torch, the YOLOv5 functions
  \<^verbatim>\<open>letterbox\<close>, \<^verbatim>\<open>non_max_suppression\<close>, \<^verbatim>\<open>scale_coords\<close>
  and \<^verbatim>\<open>xyxy2xywh\<close>, the helpers of \<^verbatim>\<open>ct_utils\<close>, the constants of
  \<^verbatim>\<open>detection.run_detector\<close> and the loaded model. They are parameters of the
  embedding, collected in the record \<open>env\<close>; each call either returns a value (\<open>Inr\<close>)
  or raises (\<open>Inl\<close>). Python floats are read as real numbers: the method itself only
  compares them (\<^verbatim>\<open>max\<close>), all float arithmetic happens inside the parameters.
\<close>

subsection \<open>Exceptions, values and records\<close>

text \<open>
  The exceptions are the subclasses of \<^verbatim>\<open>Exception\<close> the method can meet:
  the four it raises itself or through a builtin (\<^verbatim>\<open>assert\<close>, \<^verbatim>\<open>len\<close>,
  indexing, \<^verbatim>\<open>raise KeyError\<close>) and \<open>OtherException\<close> for whatever an imported
  function raises. \<^verbatim>\<open>except Exception\<close> catches every one of them.
\<close>

datatype exn =
    AssertionError
  | TypeError
  | IndexError
  | KeyError string
  | OtherException string

datatype device = CPU | CUDA | MPS

text \<open>
  The \<^verbatim>\<open>image_size\<close> argument is an arbitrary Python object. Line 104 looks at
  three things only: whether it is an int, whether it has a length, and the length.
\<close>

datatype image_size =
    IntSize int
  | SeqSize "int list"
  | NoLenSize

text \<open>One row of the tensor that non-max suppression returns: four box coordinates, the
  confidence and the model's 0-based class index (line 154 unpacks it so).\<close>

record row =
  xyxy :: "real list"
  raw_conf :: real
  raw_cls :: nat

text \<open>The detection dict of lines 172 to 176.\<close>

record detection =
  category :: string
  conf :: real
  bbox :: "real list"

text \<open>The result dict: keys may be absent, so it is a map from key to value.\<close>

datatype pyval =
    Str string
  | Float real
  | Detections "detection list"

type_synonym result = "string \<rightharpoonup> pyval"

text \<open>What the method prints: the size warning of line 107 and the failure line of
  line 190.\<close>

datatype event =
    SizeWarning image_size
  | FailureMessage string exn

text \<open>The instance attributes the method reads and writes (lines 45 to 60).\<close>

record PTDetector =
  device :: device
  printed_image_size_warning :: bool
  use_model_native_classes :: bool

text \<open>The local variables that outlive the \<^verbatim>\<open>try\<close> block (lines 91 and 92).\<close>

record frame =
  detections :: "detection list"
  max_conf :: real

text \<open>The state in which the \<^verbatim>\<open>try\<close> block is left: the exception that ended it,
  if any, the locals, the detector and the lines printed so far.\<close>

record attempt =
  raised :: "exn option"
  locals :: frame
  self_after :: PTDetector
  printed :: "event list"

text \<open>What the caller observes: the returned dict or the exception that reaches it, the
  detector afterwards and everything printed.\<close>

record call =
  returned :: "exn + result"
  detector :: PTDetector
  stdout :: "event list"

subsection \<open>The imported names\<close>

text \<open>
  \<open>to_tensor\<close> stands for lines 121 to 129 (transpose, contiguous copy, move to the
  device, scaling by 255, batch dimension), \<open>model\<close> for \<^verbatim>\<open>self.model(img)[0]\<close>,
  \<open>scale_coords\<close> for the call of line 152 with its \<^verbatim>\<open>.round()\<close>,
  \<open>tensor_div\<close> for the division by \<^verbatim>\<open>gn\<close> in line 157.
\<close>

record ('img, 'arr, 'ten) env =
  CONF_DIGITS :: int
  COORD_DIGITS :: int
  FAILURE_INFER :: string
  np_asarray :: "'img \<Rightarrow> exn + 'arr"
  shape :: "'arr \<Rightarrow> nat list"
  letterbox :: "'arr \<Rightarrow> image_size \<Rightarrow> int \<Rightarrow> exn + 'arr"
  to_tensor :: "'arr \<Rightarrow> device \<Rightarrow> exn + 'ten"
  tensor_shape :: "'ten \<Rightarrow> nat list"
  model :: "'ten \<Rightarrow> exn + 'ten"
  cpu :: "'ten \<Rightarrow> 'ten"
  non_max_suppression :: "'ten \<Rightarrow> real \<Rightarrow> exn + row list list"
  scale_coords :: "nat list \<Rightarrow> real list list \<Rightarrow> nat list \<Rightarrow> exn + real list list"
  xyxy2xywh :: "real list \<Rightarrow> exn + real list"
  tensor_div :: "real list \<Rightarrow> nat list \<Rightarrow> exn + real list"
  convert_yolo_to_xywh :: "real list \<Rightarrow> exn + real list"
  truncate_float :: "real \<Rightarrow> int \<Rightarrow> exn + real"
  truncate_float_array :: "real list \<Rightarrow> int \<Rightarrow> exn + real list"

subsection \<open>Builtins\<close>

text \<open>\<^verbatim>\<open>str\<close> of a non-negative int: its decimal digits.\<close>

definition digit_char :: "nat \<Rightarrow> char" where
  "digit_char d = ''0123456789'' ! d"

fun str_nat :: "nat \<Rightarrow> string" where
  "str_nat n = (if n < 10 then [digit_char n] else str_nat (n div 10) @ [digit_char (n mod 10)])"

declare str_nat.simps [simp del]

text \<open>
  \<^verbatim>\<open>traceback.print_exc(limit=None, file=None, chain=True)\<close>. The standard library
  hands \<open>limit\<close> to \<^verbatim>\<open>StackSummary.extract\<close>, which evaluates
  \<^verbatim>\<open>limit >= 0\<close> whenever the limit is not None. For an int that is a comparison;
  for an exception object it raises TypeError (\<^verbatim>\<open>'>=' not supported between
  instances of 'KeyError' and 'int'\<close>). The file uses f-strings, so it runs on Python 3.6 or
  later, where this is the behaviour.
\<close>

datatype limit = NoLimit | IntLimit int | ObjectLimit exn

definition traceback_print_exc :: "limit \<Rightarrow> exn + unit" where
  "traceback_print_exc l =
     (case l of NoLimit \<Rightarrow> Inr () | IntLimit n \<Rightarrow> Inr () | ObjectLimit e \<Rightarrow> Inl TypeError)"

subsection \<open>Constructor\<close>

definition IMAGE_SIZE :: int where
  "IMAGE_SIZE = 1280"

definition STRIDE :: int where
  "STRIDE = 64"

text \<open>Lines 45 to 60. Whether CUDA and MPS are available is asked of torch, so the two
  answers are arguments; loading the model is left to \<open>env\<close>.\<close>

definition init :: "bool \<Rightarrow> bool \<Rightarrow> bool \<Rightarrow> bool \<Rightarrow> PTDetector" where
  "init force_cpu cuda_available mps_available native_classes =
     \<lparr>device =
        (if \<not> force_cpu
         then (if mps_available then MPS else if cuda_available then CUDA else CPU)
         else CPU),
      printed_image_size_warning = False,
      use_model_native_classes = native_classes\<rparr>"

subsection \<open>The try block, lines 94 to 183\<close>

text \<open>Line 104: \<^verbatim>\<open>assert isinstance(image_size,int) or (len(image_size)==2)\<close>.\<close>

definition check_image_size :: "image_size \<Rightarrow> exn + unit" where
  "check_image_size s =
     (case s of
        IntSize n \<Rightarrow> Inr ()
      | SeqSize xs \<Rightarrow> if length xs = 2 then Inr () else Inl AssertionError
      | NoLenSize \<Rightarrow> Inl TypeError)"

text \<open>Lines 99 to 114: the target size, the warning and the flag.\<close>

definition select_target_size ::
  "PTDetector \<Rightarrow> image_size option \<Rightarrow> (exn + image_size) \<times> PTDetector \<times> event list" where
  "select_target_size self image_size =
     (case image_size of
        Some s \<Rightarrow>
          (case check_image_size s of
             Inl e \<Rightarrow> (Inl e, self, [])
           | Inr u \<Rightarrow>
               if \<not> printed_image_size_warning self
               then (Inr s, self\<lparr>printed_image_size_warning := True\<rparr>, [SizeWarning s])
               else (Inr s, self, []))
      | None \<Rightarrow> (Inr (IntSize IMAGE_SIZE), self\<lparr>printed_image_size_warning := False\<rparr>, []))"

text \<open>Lines 118 to 140: letterbox, tensor conversion, forward pass, non-max suppression.\<close>

definition forward_and_nms ::
  "('img, 'arr, 'ten) env \<Rightarrow> PTDetector \<Rightarrow> 'arr \<Rightarrow> image_size \<Rightarrow> real
     \<Rightarrow> exn + ('ten \<times> row list list)" where
  "forward_and_nms env self img_original target_size detection_threshold =
     (case letterbox env img_original target_size STRIDE of
        Inl e \<Rightarrow> Inl e
      | Inr boxed \<Rightarrow>
     (case to_tensor env boxed (device self) of
        Inl e \<Rightarrow> Inl e
      | Inr img \<Rightarrow>
     (case model env img of
        Inl e \<Rightarrow> Inl e
      | Inr pred \<Rightarrow>
     (case (if device self = MPS
            then non_max_suppression env (cpu env pred) detection_threshold
            else non_max_suppression env pred detection_threshold) of
        Inl e \<Rightarrow> Inl e
      | Inr nms \<Rightarrow> Inr (img, nms)))))"

text \<open>Line 143: \<^verbatim>\<open>torch.tensor(img_original.shape)[[1, 0, 1, 0]]\<close>.\<close>

definition gain :: "nat list \<Rightarrow> exn + nat list" where
  "gain shp =
     (if length shp < 2 then Inl IndexError
      else Inr [shp ! 1, shp ! 0, shp ! 1, shp ! 0])"

text \<open>Lines 163 to 170: the category id of one row.\<close>

definition category_id :: "PTDetector \<Rightarrow> nat \<Rightarrow> exn + nat" where
  "category_id self c =
     (if \<not> use_model_native_classes self
      then (let k = c + 1
            in if k \<notin> {1, 2, 3}
               then Inl (KeyError (str_nat k @ '' is not a valid class.''))
               else Inr k)
      else Inr c)"

text \<open>Lines 157 to 176: one row becomes one detection dict.\<close>

definition format_detection ::
  "('img, 'arr, 'ten) env \<Rightarrow> PTDetector \<Rightarrow> nat list \<Rightarrow> row \<Rightarrow> exn + detection" where
  "format_detection env self gn r =
     (case xyxy2xywh env (xyxy r) of
        Inl e \<Rightarrow> Inl e
      | Inr centred \<Rightarrow>
     (case tensor_div env centred gn of
        Inl e \<Rightarrow> Inl e
      | Inr xywh \<Rightarrow>
     (case convert_yolo_to_xywh env xywh of
        Inl e \<Rightarrow> Inl e
      | Inr api_box \<Rightarrow>
     (case truncate_float env (raw_conf r) (CONF_DIGITS env) of
        Inl e \<Rightarrow> Inl e
      | Inr c \<Rightarrow>
     (case category_id self (raw_cls r) of
        Inl e \<Rightarrow> Inl e
      | Inr k \<Rightarrow>
     (case truncate_float_array env api_box (COORD_DIGITS env) of
        Inl e \<Rightarrow> Inl e
      | Inr b \<Rightarrow> Inr \<lparr>category = str_nat k, conf = c, bbox = b\<rparr>))))))"

text \<open>Lines 154 to 177: the loop over the rows of one batch. The caller passes the rows
  already reversed. An exception leaves the locals as the rows before it made them.\<close>

fun for_each_row ::
  "('img, 'arr, 'ten) env \<Rightarrow> PTDetector \<Rightarrow> nat list \<Rightarrow> row list \<Rightarrow> frame
     \<Rightarrow> exn option \<times> frame" where
  "for_each_row env self gn [] f = (None, f)"
| "for_each_row env self gn (r # rs) f =
     (case format_detection env self gn r of
        Inl e \<Rightarrow> (Some e, f)
      | Inr d \<Rightarrow>
          for_each_row env self gn rs
            \<lparr>detections = detections f @ [d], max_conf = max (max_conf f) (conf d)\<rparr>)"

text \<open>Line 152 assigns the rescaled boxes to the first four columns; torch refuses an
  assignment of another shape.\<close>

definition assign_boxes :: "row list \<Rightarrow> real list list \<Rightarrow> exn + row list" where
  "assign_boxes det boxes =
     (if length boxes \<noteq> length det then Inl (OtherException ''shape mismatch'')
      else Inr (map (\<lambda>(r, b). r\<lparr>xyxy := b\<rparr>) (zip det boxes)))"

text \<open>Lines 147 to 183: the loop over the batches.\<close>

fun for_each_batch ::
  "('img, 'arr, 'ten) env \<Rightarrow> PTDetector \<Rightarrow> 'ten \<Rightarrow> 'arr \<Rightarrow> nat list \<Rightarrow> row list list \<Rightarrow> frame
     \<Rightarrow> exn option \<times> frame" where
  "for_each_batch env self img img_original gn [] f = (None, f)"
| "for_each_batch env self img img_original gn (det # pred) f =
     (if length det \<noteq> 0
      then
        (case scale_coords env (tensor_shape env img) (map xyxy det) (shape env img_original) of
           Inl e \<Rightarrow> (Some e, f)
         | Inr boxes \<Rightarrow>
        (case assign_boxes det boxes of
           Inl e \<Rightarrow> (Some e, f)
         | Inr det' \<Rightarrow>
        (case for_each_row env self gn (rev det') f of
           (Some e, f') \<Rightarrow> (Some e, f')
         | (None, f') \<Rightarrow> for_each_batch env self img img_original gn pred f')))
      else for_each_batch env self img img_original gn pred f)"

text \<open>Lines 96 to 143: everything before the loop over the batches. The result is the
  array of the original image, the letterboxed tensor, \<^verbatim>\<open>gn\<close> and the output of
  non-max suppression, together with the detector and the lines printed.\<close>

definition before_loop ::
  "('img, 'arr, 'ten) env \<Rightarrow> PTDetector \<Rightarrow> 'img \<Rightarrow> real \<Rightarrow> image_size option
     \<Rightarrow> (exn + ('arr \<times> 'ten \<times> nat list \<times> row list list)) \<times> PTDetector \<times> event list" where
  "before_loop env self img_original detection_threshold image_size =
     (case np_asarray env img_original of
        Inl e \<Rightarrow> (Inl e, self, [])
      | Inr arr \<Rightarrow>
     (case select_target_size self image_size of
        (Inl e, self1, out) \<Rightarrow> (Inl e, self1, out)
      | (Inr target_size, self1, out) \<Rightarrow>
     (case forward_and_nms env self1 arr target_size detection_threshold of
        Inl e \<Rightarrow> (Inl e, self1, out)
      | Inr (img, pred) \<Rightarrow>
     (case gain (shape env arr) of
        Inl e \<Rightarrow> (Inl e, self1, out)
      | Inr gn \<Rightarrow> (Inr (arr, img, gn, pred), self1, out)))))"

definition try_block ::
  "('img, 'arr, 'ten) env \<Rightarrow> PTDetector \<Rightarrow> 'img \<Rightarrow> real \<Rightarrow> image_size option \<Rightarrow> attempt" where
  "try_block env self img_original detection_threshold image_size =
     (let f0 = \<lparr>detections = [], max_conf = 0\<rparr>
      in case before_loop env self img_original detection_threshold image_size of
           (Inl e, self1, out) \<Rightarrow>
             \<lparr>raised = Some e, locals = f0, self_after = self1, printed = out\<rparr>
         | (Inr (arr, img, gn, pred), self1, out) \<Rightarrow>
             (case for_each_batch env self1 img arr gn pred f0 of
                (x, f) \<Rightarrow> \<lparr>raised = x, locals = f, self_after = self1, printed = out\<rparr>))"

subsection \<open>The handler and the return, lines 187 to 196\<close>

text \<open>Lines 189 to 191: the handler stores the marker, prints the failure line and calls
  \<^verbatim>\<open>traceback.print_exc(e)\<close>, that is, with the exception as \<open>limit\<close>.\<close>

definition except_block ::
  "('img, 'arr, 'ten) env \<Rightarrow> string \<Rightarrow> exn \<Rightarrow> result \<Rightarrow> (exn + unit) \<times> result \<times> event list" where
  "except_block env image_id e result =
     (traceback_print_exc (ObjectLimit e),
      result(''failure'' \<mapsto> Str (FAILURE_INFER env)),
      [FailureMessage image_id e])"

text \<open>Lines 193 and 194.\<close>

definition finish :: "result \<Rightarrow> frame \<Rightarrow> result" where
  "finish result f =
     result(''max_detection_conf'' \<mapsto> Float (max_conf f),
            ''detections'' \<mapsto> Detections (detections f))"

definition generate_detections_one_image ::
  "('img, 'arr, 'ten) env \<Rightarrow> PTDetector \<Rightarrow> 'img \<Rightarrow> string \<Rightarrow> real \<Rightarrow> image_size option \<Rightarrow> call" where
  "generate_detections_one_image env self img_original image_id detection_threshold image_size =
     (let result = [''file'' \<mapsto> Str image_id];
          t = try_block env self img_original detection_threshold image_size
      in case raised t of
           None \<Rightarrow>
             \<lparr>returned = Inr (finish result (locals t)),
              detector = self_after t,
              stdout = printed t\<rparr>
         | Some e \<Rightarrow>
             (case except_block env image_id e result of
                (Inl e', result', out) \<Rightarrow>
                  \<lparr>returned = Inl e', detector = self_after t, stdout = printed t @ out\<rparr>
              | (Inr u, result', out) \<Rightarrow>
                  \<lparr>returned = Inr (finish result' (locals t)),
                   detector = self_after t,
                   stdout = printed t @ out\<rparr>))"


subsection \<open>Properties of results, as the specification words them\<close>

text \<open>An image has failed when the call hands back no record, or one with the marker.\<close>

definition image_failed :: "call \<Rightarrow> bool" where
  "image_failed c = (case returned c of Inl e \<Rightarrow> True | Inr r \<Rightarrow> r ''failure'' \<noteq> None)"

definition returned_detections :: "call \<Rightarrow> detection list option" where
  "returned_detections c =
     (case returned c of
        Inl e \<Rightarrow> None
      | Inr r \<Rightarrow> (case r ''detections'' of Some (Detections ds) \<Rightarrow> Some ds | _ \<Rightarrow> None))"

text \<open>\<open>max_detection_conf\<close> is the largest \<open>conf\<close> of the detections, 0.0 without
  detections.\<close>

definition max_conf_consistent :: "result \<Rightarrow> bool" where
  "max_conf_consistent r =
     (case r ''detections'' of
        Some (Detections ds) \<Rightarrow>
          r ''max_detection_conf'' = Some (Float (if ds = [] then 0 else Max (set (map conf ds))))
      | _ \<Rightarrow> False)"

text \<open>Confidences are scores: none is negative.\<close>

definition confs_nonneg :: "result \<Rightarrow> bool" where
  "confs_nonneg r =
     (case r ''detections'' of
        Some (Detections ds) \<Rightarrow> list_all (\<lambda>d. 0 \<le> conf d) ds
      | _ \<Rightarrow> True)"

text \<open>The size warnings among the printed lines.\<close>

fun size_warnings :: "event list \<Rightarrow> image_size list" where
  "size_warnings [] = []"
| "size_warnings (SizeWarning s # es) = s # size_warnings es"
| "size_warnings (FailureMessage i e # es) = size_warnings es"

text \<open>The dict \<open>result\<close> as the handler leaves it (line 189).\<close>

definition handler_result :: "('img, 'arr, 'ten) env \<Rightarrow> string \<Rightarrow> exn \<Rightarrow> result" where
  "handler_result env image_id e =
     fst (snd (except_block env image_id e [''file'' \<mapsto> Str image_id]))"

text \<open>The same environment with the class column of every row that non-max suppression
  returns rewritten by \<open>h\<close>.\<close>

definition relabel ::
  "(row \<Rightarrow> nat) \<Rightarrow> ('img, 'arr, 'ten) env \<Rightarrow> ('img, 'arr, 'ten) env" where
  "relabel h env =
     env\<lparr>non_max_suppression :=
           (\<lambda>p thr. case non_max_suppression env p thr of
                       Inl e \<Rightarrow> Inl e
                     | Inr pred \<Rightarrow> Inr (map (map (\<lambda>r. r\<lparr>raw_cls := h r\<rparr>)) pred))\<rparr>"

subsection \<open>A small environment for concrete runs\<close>

text \<open>
  Images of height 100 and width 200 whose letterboxed tensor is 640 by 1280; the file of
  one of them is cut short, so that its conversion to an array raises. The output of
  non-max suppression is an argument; the other imported functions return at once. \<open>xyxy2xywh\<close>, the division and
  \<open>convert_yolo_to_xywh\<close> compute on reals what their names say, \<open>scale_coords\<close> and
  the two truncations hand their argument back (the numbers used below are short).
\<close>

datatype demo_image = Readable | Truncated

definition demo_env :: "row list list \<Rightarrow> (demo_image, unit, unit) env" where
  "demo_env pred =
     \<lparr>CONF_DIGITS = 3,
      COORD_DIGITS = 4,
      FAILURE_INFER = ''Failure inference'',
      np_asarray =
        (\<lambda>img. case img of
                 Readable \<Rightarrow> Inr ()
               | Truncated \<Rightarrow> Inl (OtherException ''image file is truncated'')),
      shape = (\<lambda>arr. [100, 200, 3]),
      letterbox = (\<lambda>arr s stride. Inr ()),
      to_tensor = (\<lambda>arr dev. Inr ()),
      tensor_shape = (\<lambda>t. [640, 1280]),
      model = (\<lambda>t. Inr ()),
      cpu = (\<lambda>t. t),
      non_max_suppression = (\<lambda>t thr. Inr pred),
      scale_coords = (\<lambda>s1 boxes s0. Inr boxes),
      xyxy2xywh =
        (\<lambda>b. case b of
               [x1, y1, x2, y2] \<Rightarrow> Inr [(x1 + x2) / 2, (y1 + y2) / 2, x2 - x1, y2 - y1]
             | _ \<Rightarrow> Inl (OtherException ''xyxy2xywh'')),
      tensor_div = (\<lambda>b gn. Inr (map (\<lambda>(x, g). x / real g) (zip b gn))),
      convert_yolo_to_xywh =
        (\<lambda>b. case b of
               [xc, yc, w, h] \<Rightarrow> Inr [xc - w / 2, yc - h / 2, w, h]
             | _ \<Rightarrow> Inl (OtherException ''convert_yolo_to_xywh'')),
      truncate_float = (\<lambda>x d. Inr x),
      truncate_float_array = (\<lambda>xs d. Inr xs)\<rparr>"

text \<open>Three rows: two of recognised classes and one of native class 3.\<close>

definition row_animal :: row where
  "row_animal = \<lparr>xyxy = [0, 0, 200, 100], raw_conf = 9 / 10, raw_cls = 0\<rparr>"

definition row_person :: row where
  "row_person = \<lparr>xyxy = [50, 25, 150, 75], raw_conf = 3 / 4, raw_cls = 1\<rparr>"

definition row_unknown :: row where
  "row_unknown = \<lparr>xyxy = [20, 10, 120, 60], raw_conf = 4 / 5, raw_cls = 3\<rparr>"

text \<open>Two rows with the same box and confidence: they differ in the class column at most.\<close>

definition same_box :: "row \<Rightarrow> row \<Rightarrow> bool" where
  "same_box r r' = (xyxy r = xyxy r' \<and> raw_conf r = raw_conf r')"

text \<open>
  The loops of lines 147 to 177 read as a list, in the order in which they run: a non-empty
  batch contributes the exception of its rescaling (line 152) if that raises, and otherwise
  the result of lines 157 to 176 for each of its rows, last row first; an empty batch
  contributes nothing. The loops go through this list and stop at its first exception.
\<close>

definition batch_outcomes ::
  "('img, 'arr, 'ten) env \<Rightarrow> PTDetector \<Rightarrow> 'ten \<Rightarrow> 'arr \<Rightarrow> nat list \<Rightarrow> row list
     \<Rightarrow> (exn + detection) list" where
  "batch_outcomes env self img img_original gn det =
     (if length det \<noteq> 0
      then
        (case scale_coords env (tensor_shape env img) (map xyxy det) (shape env img_original) of
           Inl e \<Rightarrow> [Inl e]
         | Inr boxes \<Rightarrow>
        (case assign_boxes det boxes of
           Inl e \<Rightarrow> [Inl e]
         | Inr det' \<Rightarrow> map (format_detection env self gn) (rev det')))
      else [])"

definition outcomes ::
  "('img, 'arr, 'ten) env \<Rightarrow> PTDetector \<Rightarrow> 'ten \<Rightarrow> 'arr \<Rightarrow> nat list \<Rightarrow> row list list
     \<Rightarrow> (exn + detection) list" where
  "outcomes env self img img_original gn pred =
     concat (map (batch_outcomes env self img img_original gn) pred)"

section \<open>Lemmas about the loops and the call\<close>

subsection \<open>The running maximum\<close>

lemma fold_max_snoc: "fold max (xs @ [c]) (a::real) = max (fold max xs a) c"
  by (simp add: max.commute)

lemma fold_max_nonneg:
  assumes "xs \<noteq> []" and "\<forall>x\<in>set xs. (0::real) \<le> x"
  shows "fold max xs 0 = Max (set xs)"
proof -
  have "fold max xs 0 = Max (set (0 # xs))"
    by (simp only: Max.set_eq_fold)
  also have "\<dots> = max 0 (Max (set xs))"
    using assms(1) by simp
  also have "\<dots> = Max (set xs)"
  proof -
    obtain x where "x \<in> set xs" using assms(1) by (cases xs) auto
    then have "0 \<le> Max (set xs)"
      using assms(2) by (meson List.finite_set Max_ge order_trans)
    then show ?thesis by simp
  qed
  finally show ?thesis .
qed

lemma for_each_row_max:
  "for_each_row env self gn rs f = (x, f') \<Longrightarrow>
   max_conf f = fold max (map conf (detections f)) 0 \<Longrightarrow>
   max_conf f' = fold max (map conf (detections f')) 0"
proof (induction rs arbitrary: f)
  case Nil
  then show ?case by simp
next
  case (Cons r rs)
  show ?case
  proof (cases "format_detection env self gn r")
    case (Inl e)
    with Cons.prems show ?thesis by simp
  next
    case (Inr d)
    let ?g = "\<lparr>detections = detections f @ [d], max_conf = max (max_conf f) (conf d)\<rparr>"
    from Inr Cons.prems(1) have "for_each_row env self gn rs ?g = (x, f')" by simp
    moreover have "max_conf ?g = fold max (map conf (detections ?g)) 0"
      using Cons.prems(2) by (simp add: max.commute)
    ultimately show ?thesis by (rule Cons.IH)
  qed
qed

lemma for_each_batch_max:
  "for_each_batch env self img arr gn pred f = (x, f') \<Longrightarrow>
   max_conf f = fold max (map conf (detections f)) 0 \<Longrightarrow>
   max_conf f' = fold max (map conf (detections f')) 0"
proof (induction pred arbitrary: f)
  case Nil
  then show ?case by simp
next
  case (Cons det pred)
  show ?case
  proof (cases "length det \<noteq> 0")
    case False
    with Cons show ?thesis by simp
  next
    case True
    show ?thesis
    proof (cases "scale_coords env (tensor_shape env img) (map xyxy det) (shape env arr)")
      case (Inl e)
      with True Cons.prems show ?thesis by simp
    next
      case boxes: (Inr boxes)
      show ?thesis
      proof (cases "assign_boxes det boxes")
        case (Inl e)
        with True boxes Cons.prems show ?thesis by simp
      next
        case det': (Inr det')
        obtain y g where rows: "for_each_row env self gn (rev det') f = (y, g)"
          by (cases "for_each_row env self gn (rev det') f")
        have g: "max_conf g = fold max (map conf (detections g)) 0"
          using rows Cons.prems(2) by (rule for_each_row_max)
        show ?thesis
        proof (cases y)
          case None
          with True boxes det' rows Cons.prems(1)
          have "for_each_batch env self img arr gn pred g = (x, f')" by simp
          then show ?thesis using g by (rule Cons.IH)
        next
          case (Some e)
          with True boxes det' rows Cons.prems(1) have "f' = g" by simp
          with g show ?thesis by simp
        qed
      qed
    qed
  qed
qed

lemma try_block_max:
  "max_conf (locals (try_block env self img thr sz)) =
   fold max (map conf (detections (locals (try_block env self img thr sz)))) 0"
proof (cases "before_loop env self img thr sz")
  case (fields a self1 out)
  show ?thesis
  proof (cases a)
    case (Inl e)
    with fields show ?thesis by (simp add: try_block_def)
  next
    case (Inr v)
    obtain arr img' gn pred where v: "v = (arr, img', gn, pred)" by (cases v)
    obtain x f where loop:
      "for_each_batch env self1 img' arr gn pred \<lparr>detections = [], max_conf = 0\<rparr> = (x, f)"
      by (cases "for_each_batch env self1 img' arr gn pred \<lparr>detections = [], max_conf = 0\<rparr>")
    have "max_conf f = fold max (map conf (detections f)) 0"
      using loop by (rule for_each_batch_max) simp
    with fields Inr v loop show ?thesis by (simp add: try_block_def)
  qed
qed

lemma call_raised:
  assumes "raised (try_block env self img thr sz) = Some e"
  shows "generate_detections_one_image env self img image_id thr sz =
           \<lparr>returned = Inl TypeError,
            detector = self_after (try_block env self img thr sz),
            stdout = printed (try_block env self img thr sz) @ [FailureMessage image_id e]\<rparr>"
  using assms
  by (simp add: generate_detections_one_image_def except_block_def traceback_print_exc_def Let_def)

lemma call_completed:
  assumes "raised (try_block env self img thr sz) = None"
  shows "generate_detections_one_image env self img image_id thr sz =
           \<lparr>returned = Inr (finish [''file'' \<mapsto> Str image_id] (locals (try_block env self img thr sz))),
            detector = self_after (try_block env self img thr sz),
            stdout = printed (try_block env self img thr sz)\<rparr>"
  using assms
  by (simp add: generate_detections_one_image_def Let_def)

lemma image_failed_iff:
  "image_failed (generate_detections_one_image env self img image_id thr sz) \<longleftrightarrow>
   raised (try_block env self img thr sz) \<noteq> None"
proof (cases "raised (try_block env self img thr sz)")
  case None
  then show ?thesis
    by (simp add: call_completed image_failed_def finish_def)
next
  case (Some e)
  then show ?thesis
    by (simp add: call_raised image_failed_def)
qed


lemma assign_boxes_cls:
  assumes "assign_boxes det boxes = Inr det'"
  shows "map raw_cls det' = map raw_cls det"
proof -
  from assms have len: "length boxes = length det"
    and det': "det' = map (\<lambda>(r, b). r\<lparr>xyxy := b\<rparr>) (zip det boxes)"
    by (auto simp: assign_boxes_def split: if_splits)
  have "map raw_cls det' = map raw_cls (map fst (zip det boxes))"
    unfolding det' by (simp add: case_prod_unfold)
  also have "\<dots> = map raw_cls det"
    using len by simp
  finally show ?thesis .
qed

lemma format_detection_category:
  assumes "format_detection env self gn r = Inr d"
  shows "category d =
           str_nat (if use_model_native_classes self then raw_cls r else raw_cls r + 1)"
    and "\<not> use_model_native_classes self \<Longrightarrow> raw_cls r + 1 \<in> {1, 2, 3}"
  using assms
  by (auto simp: format_detection_def category_id_def Let_def split: sum.splits if_splits)

lemma format_detection_unknown:
  assumes "\<not> use_model_native_classes self" and "raw_cls r + 1 \<notin> {1, 2, 3}"
  shows "\<exists>e. format_detection env self gn r = Inl e"
  using assms
  by (auto simp: format_detection_def category_id_def Let_def split: sum.splits)

lemma for_each_row_categories:
  assumes "for_each_row env self gn rs f = (None, f')"
  shows "map category (detections f') =
           map category (detections f) @
           map (\<lambda>r. str_nat (if use_model_native_classes self then raw_cls r else raw_cls r + 1)) rs"
  using assms
proof (induction rs arbitrary: f)
  case Nil
  then show ?case by simp
next
  case (Cons r rs)
  then obtain d where d: "format_detection env self gn r = Inr d"
    by (cases "format_detection env self gn r") auto
  let ?g = "\<lparr>detections = detections f @ [d], max_conf = max (max_conf f) (conf d)\<rparr>"
  from d Cons.prems have "for_each_row env self gn rs ?g = (None, f')" by simp
  from Cons.IH [OF this] format_detection_category(1) [OF d]
  show ?case by simp
qed

lemma for_each_row_unknown:
  assumes "\<not> use_model_native_classes self"
    and "r \<in> set rs" and "raw_cls r + 1 \<notin> {1, 2, 3}"
  shows "fst (for_each_row env self gn rs f) \<noteq> None"
  using assms(2)
proof (induction rs arbitrary: f)
  case Nil
  then show ?case by simp
next
  case (Cons a rs)
  show ?case
  proof (cases "format_detection env self gn a")
    case (Inl e)
    then show ?thesis by simp
  next
    case (Inr d)
    with format_detection_unknown [OF assms(1,3), of env gn] have "a \<noteq> r" by auto
    with Cons.prems have "r \<in> set rs" by simp
    with Inr Cons.IH show ?thesis by simp
  qed
qed

lemma for_each_batch_categories:
  assumes "for_each_batch env self img arr gn pred f = (None, f')"
  shows "map category (detections f') =
           map category (detections f) @
           map (\<lambda>r. str_nat (if use_model_native_classes self then raw_cls r else raw_cls r + 1))
             (concat (map rev pred))"
  using assms
proof (induction pred arbitrary: f)
  case Nil
  then show ?case by simp
next
  case (Cons det pred)
  show ?case
  proof (cases "length det \<noteq> 0")
    case False
    with Cons show ?thesis by simp
  next
    case True
    from True Cons.prems obtain boxes where
      boxes: "scale_coords env (tensor_shape env img) (map xyxy det) (shape env arr) = Inr boxes"
      by (cases "scale_coords env (tensor_shape env img) (map xyxy det) (shape env arr)") auto
    from True boxes Cons.prems obtain det' where det': "assign_boxes det boxes = Inr det'"
      by (cases "assign_boxes det boxes") auto
    obtain y g where rows: "for_each_row env self gn (rev det') f = (y, g)"
      by (cases "for_each_row env self gn (rev det') f")
    from True boxes det' rows Cons.prems have y: "y = None"
      by (cases y) auto
    with True boxes det' rows Cons.prems
    have rest: "for_each_batch env self img arr gn pred g = (None, f')" by simp
    have "map raw_cls (rev det') = map raw_cls (rev det)"
      using assign_boxes_cls [OF det'] by (simp add: rev_map [symmetric])
    then have "map (\<lambda>k. str_nat (if use_model_native_classes self then k else k + 1))
                 (map raw_cls (rev det')) =
               map (\<lambda>k. str_nat (if use_model_native_classes self then k else k + 1))
                 (map raw_cls (rev det))"
      by simp
    then have same:
      "map (\<lambda>r. str_nat (if use_model_native_classes self then raw_cls r else raw_cls r + 1)) (rev det') =
       map (\<lambda>r. str_nat (if use_model_native_classes self then raw_cls r else raw_cls r + 1)) (rev det)"
      by (simp add: comp_def)
    from for_each_row_categories [OF rows [unfolded y]] Cons.IH [OF rest] same
    show ?thesis by simp
  qed
qed

subsection \<open>The stages before the loop, and unrecognised classes\<close>

lemma select_target_size_native:
  "use_model_native_classes (fst (snd (select_target_size self sz))) = use_model_native_classes self"
  by (simp add: select_target_size_def split: option.splits sum.splits)

lemma before_loop_native:
  "use_model_native_classes (fst (snd (before_loop env self img thr sz))) =
   use_model_native_classes self"
proof (cases "select_target_size self sz")
  case (fields a self1 out)
  with select_target_size_native [of self sz]
  have "use_model_native_classes self1 = use_model_native_classes self" by simp
  with fields show ?thesis
    by (simp add: before_loop_def split: sum.splits prod.splits)
qed

lemma try_block_before_loop_raises:
  assumes "fst (before_loop env self img thr sz) = Inl e"
  shows "raised (try_block env self img thr sz) = Some e"
    and "locals (try_block env self img thr sz) = \<lparr>detections = [], max_conf = 0\<rparr>"
proof -
  obtain self1 out where "before_loop env self img thr sz = (Inl e, self1, out)"
    using assms by (cases "before_loop env self img thr sz") auto
  then show "raised (try_block env self img thr sz) = Some e"
    and "locals (try_block env self img thr sz) = \<lparr>detections = [], max_conf = 0\<rparr>"
    by (simp_all add: try_block_def)
qed

lemma try_block_loop:
  assumes "fst (before_loop env self img thr sz) = Inr (arr, img', gn, pred)"
  shows "raised (try_block env self img thr sz) =
           fst (for_each_batch env (fst (snd (before_loop env self img thr sz))) img' arr gn pred
                  \<lparr>detections = [], max_conf = 0\<rparr>)"
    and "locals (try_block env self img thr sz) =
           snd (for_each_batch env (fst (snd (before_loop env self img thr sz))) img' arr gn pred
                  \<lparr>detections = [], max_conf = 0\<rparr>)"
proof -
  obtain self1 out where b: "before_loop env self img thr sz = (Inr (arr, img', gn, pred), self1, out)"
    using assms by (cases "before_loop env self img thr sz") auto
  obtain x f where l:
    "for_each_batch env self1 img' arr gn pred \<lparr>detections = [], max_conf = 0\<rparr> = (x, f)"
    by (cases "for_each_batch env self1 img' arr gn pred \<lparr>detections = [], max_conf = 0\<rparr>")
  from b l show "raised (try_block env self img thr sz) =
           fst (for_each_batch env (fst (snd (before_loop env self img thr sz))) img' arr gn pred
                  \<lparr>detections = [], max_conf = 0\<rparr>)"
    and "locals (try_block env self img thr sz) =
           snd (for_each_batch env (fst (snd (before_loop env self img thr sz))) img' arr gn pred
                  \<lparr>detections = [], max_conf = 0\<rparr>)"
    by (simp_all add: try_block_def)
qed

lemma try_block_self_after:
  "self_after (try_block env self img thr sz) = fst (snd (before_loop env self img thr sz))"
proof (cases "before_loop env self img thr sz")
  case (fields a self1 out)
  then show ?thesis
    by (cases a) (simp_all add: try_block_def split: prod.splits)
qed

lemma try_block_printed:
  "printed (try_block env self img thr sz) = snd (snd (before_loop env self img thr sz))"
proof (cases "before_loop env self img thr sz")
  case (fields a self1 out)
  then show ?thesis
    by (cases a) (simp_all add: try_block_def split: prod.splits)
qed

lemma for_each_batch_unknown:
  assumes "\<not> use_model_native_classes self"
    and "r \<in> set (concat pred)" and "raw_cls r + 1 \<notin> {1, 2, 3}"
  shows "fst (for_each_batch env self img arr gn pred f) \<noteq> None"
  using assms(2)
proof (induction pred arbitrary: f)
  case Nil
  then show ?case by simp
next
  case (Cons det pred)
  show ?case
  proof (cases "length det \<noteq> 0")
    case False
    with Cons show ?thesis by simp
  next
    case True
    show ?thesis
    proof (cases "scale_coords env (tensor_shape env img) (map xyxy det) (shape env arr)")
      case (Inl e)
      with True show ?thesis by simp
    next
      case boxes: (Inr boxes)
      show ?thesis
      proof (cases "assign_boxes det boxes")
        case (Inl e)
        with True boxes show ?thesis by simp
      next
        case det': (Inr det')
        obtain y g where rows: "for_each_row env self gn (rev det') f = (y, g)"
          by (cases "for_each_row env self gn (rev det') f")
        show ?thesis
        proof (cases y)
          case (Some e)
          with True boxes det' rows show ?thesis by simp
        next
          case None
          have "r \<notin> set det"
          proof
            assume "r \<in> set det"
            then have "raw_cls r \<in> set (map raw_cls det')"
              using assign_boxes_cls [OF det'] by simp
            then obtain r' where r': "r' \<in> set (rev det')" "raw_cls r' = raw_cls r" by auto
            with assms(3) have "raw_cls r' + 1 \<notin> {1, 2, 3}" by simp
            from for_each_row_unknown [OF assms(1) r'(1) this, of env gn f] rows None
            show False by simp
          qed
          with Cons.prems have "r \<in> set (concat pred)" by simp
          from Cons.IH [OF this, of g] True boxes det' rows None show ?thesis by simp
        qed
      qed
    qed
  qed
qed

lemma for_each_batch_first_unknown:
  assumes "\<not> use_model_native_classes self"
    and "concat (map rev pred) = r # rest" and "raw_cls r + 1 \<notin> {1, 2, 3}"
  shows "\<exists>e. for_each_batch env self img arr gn pred f = (Some e, f)"
  using assms(2)
proof (induction pred)
  case Nil
  then show ?case by simp
next
  case (Cons det pred)
  show ?case
  proof (cases "length det \<noteq> 0")
    case False
    with Cons show ?thesis by simp
  next
    case True
    with Cons.prems obtain tl where last: "rev det = r # tl"
      by (cases "rev det") auto
    show ?thesis
    proof (cases "scale_coords env (tensor_shape env img) (map xyxy det) (shape env arr)")
      case (Inl e)
      with True show ?thesis by simp
    next
      case boxes: (Inr boxes)
      show ?thesis
      proof (cases "assign_boxes det boxes")
        case (Inl e)
        with True boxes show ?thesis by simp
      next
        case det': (Inr det')
        have "map raw_cls (rev det') = map raw_cls (rev det)"
          using assign_boxes_cls [OF det'] by (simp add: rev_map [symmetric])
        with last obtain r' tl' where r': "rev det' = r' # tl'" "raw_cls r' = raw_cls r"
          by (cases "rev det'") auto
        with assms(3) have "raw_cls r' + 1 \<notin> {1, 2, 3}" by simp
        from format_detection_unknown [OF assms(1) this, of env gn]
        obtain e where "format_detection env self gn r' = Inl e" ..
        with True boxes det' r'(1) show ?thesis by simp
      qed
    qed
  qed
qed

lemma returned_detections_completed:
  assumes "raised (try_block env self img thr sz) = None"
  shows "returned_detections (generate_detections_one_image env self img image_id thr sz) =
           Some (detections (locals (try_block env self img thr sz)))"
  using assms
  by (simp add: call_completed returned_detections_def finish_def)

lemma categories_completed:
  assumes front: "fst (before_loop env self img thr sz) = Inr (arr, img', gn, pred)"
    and ok: "\<not> image_failed (generate_detections_one_image env self img image_id thr sz)"
  shows "map_option (map category)
           (returned_detections (generate_detections_one_image env self img image_id thr sz)) =
         Some (map (\<lambda>x. str_nat (if use_model_native_classes self then raw_cls x else raw_cls x + 1))
                 (concat (map rev pred)))"
proof -
  let ?self1 = "fst (snd (before_loop env self img thr sz))"
  let ?f0 = "\<lparr>detections = [], max_conf = 0\<rparr>"
  from ok have none: "raised (try_block env self img thr sz) = None"
    by (simp add: image_failed_iff)
  obtain x f where loop: "for_each_batch env ?self1 img' arr gn pred ?f0 = (x, f)"
    by (cases "for_each_batch env ?self1 img' arr gn pred ?f0")
  from try_block_loop [OF front] loop none
  have x: "x = None" and f: "locals (try_block env self img thr sz) = f" by simp_all
  from for_each_batch_categories [OF loop [unfolded x]]
  have "map category (detections f) =
          map (\<lambda>r. str_nat (if use_model_native_classes ?self1 then raw_cls r else raw_cls r + 1))
            (concat (map rev pred))"
    by simp
  then show ?thesis
    by (simp add: returned_detections_completed [OF none] f before_loop_native)
qed

subsection \<open>The handler, and a malformed size\<close>

lemma handler_result_marker:
  "handler_result env image_id e ''failure'' = Some (Str (FAILURE_INFER env))"
  and handler_result_file:
  "handler_result env image_id e ''file'' = Some (Str image_id)"
  by (simp_all add: handler_result_def except_block_def)

lemma try_block_max_insert:
  "max_conf (locals (try_block env self img thr sz)) =
   Max (insert 0 (set (map conf (detections (locals (try_block env self img thr sz))))))"
proof -
  have "fold max (map conf (detections (locals (try_block env self img thr sz)))) 0 =
        Max (set (0 # map conf (detections (locals (try_block env self img thr sz)))))"
    by (simp only: Max.set_eq_fold)
  then show ?thesis
    using try_block_max [of env self img thr sz] by simp
qed

lemma check_image_size_errors:
  "check_image_size s = Inl e \<Longrightarrow> e = AssertionError \<or> e = TypeError"
  by (auto simp: check_image_size_def split: image_size.splits if_splits)

lemma before_loop_bad_size:
  assumes "np_asarray env img = Inr arr" and "check_image_size s = Inl e"
  shows "before_loop env self img thr (Some s) = (Inl e, self, [])"
  using assms by (simp add: before_loop_def select_target_size_def)

subsection \<open>The detector and the printed lines after a call\<close>

lemma size_warnings_append:
  "size_warnings (xs @ ys) = size_warnings xs @ size_warnings ys"
  by (induction xs rule: size_warnings.induct) simp_all

lemma call_detector:
  "detector (generate_detections_one_image env self img image_id thr sz) =
   fst (snd (before_loop env self img thr sz))"
proof (cases "raised (try_block env self img thr sz)")
  case None
  then show ?thesis by (simp add: call_completed try_block_self_after)
next
  case (Some e)
  then show ?thesis by (simp add: call_raised try_block_self_after)
qed

lemma call_size_warnings:
  "size_warnings (stdout (generate_detections_one_image env self img image_id thr sz)) =
   size_warnings (snd (snd (before_loop env self img thr sz)))"
proof (cases "raised (try_block env self img thr sz)")
  case None
  then show ?thesis by (simp add: call_completed try_block_printed)
next
  case (Some e)
  then show ?thesis by (simp add: call_raised try_block_printed size_warnings_append)
qed

lemma before_loop_conversion_raises:
  assumes "np_asarray env img = Inl e"
  shows "before_loop env self img thr sz = (Inl e, self, [])"
  using assms by (simp add: before_loop_def)

lemma before_loop_after_conversion:
  assumes "np_asarray env img = Inr arr"
  shows "snd (before_loop env self img thr sz) = snd (select_target_size self sz)"
proof (cases "select_target_size self sz")
  case (fields a self1 out)
  with assms show ?thesis
    by (cases a) (simp_all add: before_loop_def split: sum.splits prod.splits)
qed

subsection \<open>Rewriting the class column\<close>

lemma relabel_fields:
  "CONF_DIGITS (relabel h env) = CONF_DIGITS env"
  "COORD_DIGITS (relabel h env) = COORD_DIGITS env"
  "np_asarray (relabel h env) = np_asarray env"
  "shape (relabel h env) = shape env"
  "letterbox (relabel h env) = letterbox env"
  "to_tensor (relabel h env) = to_tensor env"
  "tensor_shape (relabel h env) = tensor_shape env"
  "model (relabel h env) = model env"
  "cpu (relabel h env) = cpu env"
  "scale_coords (relabel h env) = scale_coords env"
  "xyxy2xywh (relabel h env) = xyxy2xywh env"
  "tensor_div (relabel h env) = tensor_div env"
  "convert_yolo_to_xywh (relabel h env) = convert_yolo_to_xywh env"
  "truncate_float (relabel h env) = truncate_float env"
  "truncate_float_array (relabel h env) = truncate_float_array env"
  by (simp_all add: relabel_def)

lemma format_detection_relabel:
  "format_detection (relabel h env) self gn r = format_detection env self gn r"
  unfolding format_detection_def relabel_fields by (rule refl)

lemma for_each_row_relabel:
  "for_each_row (relabel h env) self gn rs f = for_each_row env self gn rs f"
proof (induction rs arbitrary: f)
  case Nil
  show ?case by simp
next
  case (Cons r rs)
  show ?case
    unfolding for_each_row.simps format_detection_relabel Cons.IH by (rule refl)
qed

lemma for_each_batch_relabel:
  "for_each_batch (relabel h env) self img arr gn pred f =
   for_each_batch env self img arr gn pred f"
proof (induction pred arbitrary: f)
  case Nil
  show ?case by simp
next
  case (Cons det pred)
  show ?case
    unfolding for_each_batch.simps relabel_fields for_each_row_relabel Cons.IH by (rule refl)
qed

lemma format_detection_same_box:
  assumes "use_model_native_classes self" and "same_box r r'"
  shows "(format_detection env self gn r = Inl e) = (format_detection env self gn r' = Inl e)"
  using assms
  by (auto simp: format_detection_def category_id_def same_box_def split: sum.splits)

lemma for_each_row_same_box:
  assumes "use_model_native_classes self" and "list_all2 same_box rs rs'"
  shows "fst (for_each_row env self gn rs f) = fst (for_each_row env self gn rs' f')"
  using assms(2)
proof (induction rs rs' arbitrary: f f' rule: list_all2_induct)
  case Nil
  show ?case by simp
next
  case (Cons r rs r' rs')
  note fd = format_detection_same_box [OF assms(1) Cons.hyps(1), of env gn]
  show ?case
  proof (cases "format_detection env self gn r")
    case (Inl e)
    with fd [of e] have "format_detection env self gn r' = Inl e" by simp
    with Inl show ?thesis by simp
  next
    case (Inr d)
    obtain d' where "format_detection env self gn r' = Inr d'"
    proof (cases "format_detection env self gn r'")
      case (Inl e)
      with fd [of e] Inr show ?thesis by simp
    next
      case (Inr d')
      then show ?thesis by (rule that)
    qed
    with Inr Cons.IH show ?thesis by simp
  qed
qed

lemma assign_boxes_same_box:
  assumes "list_all2 same_box det det'"
  shows "(assign_boxes det boxes = Inl e) = (assign_boxes det' boxes = Inl e)"
    and "assign_boxes det boxes = Inr d \<Longrightarrow> assign_boxes det' boxes = Inr d' \<Longrightarrow>
         list_all2 same_box d d'"
proof -
  from assms have len: "length det = length det'" by (rule list_all2_lengthD)
  then show "(assign_boxes det boxes = Inl e) = (assign_boxes det' boxes = Inl e)"
    by (simp add: assign_boxes_def)
  assume "assign_boxes det boxes = Inr d" and "assign_boxes det' boxes = Inr d'"
  then have d: "d = map (\<lambda>(r, b). r\<lparr>xyxy := b\<rparr>) (zip det boxes)"
    and d': "d' = map (\<lambda>(r, b). r\<lparr>xyxy := b\<rparr>) (zip det' boxes)"
    and lb: "length boxes = length det"
    by (auto simp: assign_boxes_def split: if_splits)
  from assms have "\<forall>i < length det. raw_conf (det ! i) = raw_conf (det' ! i)"
    by (auto simp: list_all2_conv_all_nth same_box_def)
  with len lb show "list_all2 same_box d d'"
    unfolding d d' by (auto simp: list_all2_conv_all_nth same_box_def)
qed

lemma for_each_batch_same_box:
  assumes "use_model_native_classes self" and "list_all2 (list_all2 same_box) pred pred'"
  shows "fst (for_each_batch env self img arr gn pred f) =
         fst (for_each_batch env self img arr gn pred' f')"
  using assms(2)
proof (induction pred pred' arbitrary: f f' rule: list_all2_induct)
  case Nil
  show ?case by simp
next
  case (Cons det pred det' pred')
  from Cons.hyps(1) have len: "length det = length det'" by (rule list_all2_lengthD)
  from Cons.hyps(1) have boxes_eq: "map xyxy det = map xyxy det'"
    by (auto simp: list_all2_conv_all_nth same_box_def intro: nth_equalityI)
  show ?case
  proof (cases "length det \<noteq> 0")
    case False
    with len Cons.IH show ?thesis by simp
  next
    case True
    with len have True': "length det' \<noteq> 0" by simp
    show ?thesis
    proof (cases "scale_coords env (tensor_shape env img) (map xyxy det) (shape env arr)")
      case (Inl e)
      with True True' boxes_eq show ?thesis by simp
    next
      case boxes: (Inr boxes)
      note ab = assign_boxes_same_box [OF Cons.hyps(1), of boxes]
      show ?thesis
      proof (cases "assign_boxes det boxes")
        case (Inl e)
        with ab(1) [of e] have "assign_boxes det' boxes = Inl e" by simp
        with Inl True True' boxes boxes_eq show ?thesis by simp
      next
        case d: (Inr d)
        obtain d' where d': "assign_boxes det' boxes = Inr d'"
        proof (cases "assign_boxes det' boxes")
          case (Inl e)
          with ab(1) [of e] d show ?thesis by simp
        next
          case (Inr d')
          then show ?thesis by (rule that)
        qed
        from ab(2) [OF d d'] have "list_all2 same_box (rev d) (rev d')" by simp
        from for_each_row_same_box [OF assms(1) this, of env gn f f']
        have rows: "fst (for_each_row env self gn (rev d) f) =
                    fst (for_each_row env self gn (rev d') f')" .
        obtain y g where r: "for_each_row env self gn (rev d) f = (y, g)"
          by (cases "for_each_row env self gn (rev d) f")
        obtain y' g' where r': "for_each_row env self gn (rev d') f' = (y', g')"
          by (cases "for_each_row env self gn (rev d') f'")
        from rows r r' have y: "y' = y" by simp
        show ?thesis
        proof (cases y)
          case None
          with True True' boxes boxes_eq d d' r r' y Cons.IH [of g g'] show ?thesis by simp
        next
          case (Some e)
          with True True' boxes boxes_eq d d' r r' y show ?thesis by simp
        qed
      qed
    qed
  qed
qed

lemma before_loop_relabel:
  "before_loop (relabel h env) self img thr sz =
     (case before_loop env self img thr sz of
        (Inl e, self1, out) \<Rightarrow> (Inl e, self1, out)
      | (Inr (arr, img', gn, pred), self1, out) \<Rightarrow>
          (Inr (arr, img', gn, map (map (\<lambda>r. r\<lparr>raw_cls := h r\<rparr>)) pred), self1, out))"
proof -
  have nms: "non_max_suppression (relabel h env) p t =
               (case non_max_suppression env p t of
                  Inl e \<Rightarrow> Inl e
                | Inr pred \<Rightarrow> Inr (map (map (\<lambda>r. r\<lparr>raw_cls := h r\<rparr>)) pred))" for p t
    by (simp add: relabel_def)
  have fwd: "forward_and_nms (relabel h env) s a ts t =
               (case forward_and_nms env s a ts t of
                  Inl e \<Rightarrow> Inl e
                | Inr (img', pred) \<Rightarrow> Inr (img', map (map (\<lambda>r. r\<lparr>raw_cls := h r\<rparr>)) pred))"
    for s a ts t
    unfolding forward_and_nms_def relabel_fields nms
    by (simp split: sum.splits)
  show ?thesis
    unfolding before_loop_def relabel_fields fwd
    by (simp split: sum.splits prod.splits)
qed

lemma relabel_same_box:
  "list_all2 (list_all2 same_box) pred (map (map (\<lambda>r. r\<lparr>raw_cls := h r\<rparr>)) pred)"
  by (simp add: list_all2_map2 list_all2_same same_box_def)

lemma raised_relabel:
  assumes "use_model_native_classes self"
  shows "raised (try_block (relabel h env) self img thr sz) =
         raised (try_block env self img thr sz)"
proof (cases "before_loop env self img thr sz")
  case (fields a self1 out)
  show ?thesis
  proof (cases a)
    case (Inl e)
    with fields have "fst (before_loop env self img thr sz) = Inl e"
      and "fst (before_loop (relabel h env) self img thr sz) = Inl e"
      by (simp_all add: before_loop_relabel)
    then show ?thesis by (simp add: try_block_before_loop_raises(1))
  next
    case (Inr v)
    obtain arr img' gn pred where v: "v = (arr, img', gn, pred)" by (cases v)
    let ?pred' = "map (map (\<lambda>r. r\<lparr>raw_cls := h r\<rparr>)) pred"
    let ?f0 = "\<lparr>detections = [], max_conf = 0\<rparr>"
    from fields Inr v have b: "fst (before_loop env self img thr sz) = Inr (arr, img', gn, pred)"
      and s: "fst (snd (before_loop env self img thr sz)) = self1"
      and b': "fst (before_loop (relabel h env) self img thr sz) = Inr (arr, img', gn, ?pred')"
      and s': "fst (snd (before_loop (relabel h env) self img thr sz)) = self1"
      by (simp_all add: before_loop_relabel)
    from assms s have n: "use_model_native_classes self1"
      using before_loop_native [of env self img thr sz] by simp
    have "raised (try_block (relabel h env) self img thr sz) =
            fst (for_each_batch env self1 img' arr gn ?pred' ?f0)"
      by (simp add: try_block_loop(1) [OF b'] s' for_each_batch_relabel)
    also have "\<dots> = fst (for_each_batch env self1 img' arr gn pred ?f0)"
      by (rule for_each_batch_same_box [OF n relabel_same_box, symmetric])
    also have "\<dots> = raised (try_block env self img thr sz)"
      by (simp add: try_block_loop(1) [OF b] s)
    finally show ?thesis .
  qed
qed

subsection \<open>What the loop has appended when it is left\<close>

lemma for_each_row_prefix:
  assumes "for_each_row env self gn rs f = (x, f')"
  shows "\<exists>n. n \<le> length rs \<and> (x \<noteq> None \<longrightarrow> n < length rs) \<and> (x = None \<longrightarrow> n = length rs) \<and>
           map category (detections f') =
             map category (detections f) @
             take n (map (\<lambda>r. str_nat (if use_model_native_classes self then raw_cls r
                                          else raw_cls r + 1)) rs)"
  using assms
proof (induction rs arbitrary: f)
  case Nil
  then show ?case by simp
next
  case (Cons r rs)
  let ?lab = "\<lambda>r. str_nat (if use_model_native_classes self then raw_cls r else raw_cls r + 1)"
  show ?case
  proof (cases "format_detection env self gn r")
    case (Inl e)
    with Cons.prems have "x = Some e" "f' = f" by simp_all
    then have "0 \<le> length (r # rs) \<and> (x \<noteq> None \<longrightarrow> 0 < length (r # rs)) \<and>
               (x = None \<longrightarrow> 0 = length (r # rs)) \<and>
               map category (detections f') =
                 map category (detections f) @ take 0 (map ?lab (r # rs))"
      by simp
    then show ?thesis by blast
  next
    case (Inr d)
    let ?g = "\<lparr>detections = detections f @ [d], max_conf = max (max_conf f) (conf d)\<rparr>"
    from Inr Cons.prems have "for_each_row env self gn rs ?g = (x, f')" by simp
    from Cons.IH [OF this] obtain n where n: "n \<le> length rs" "x \<noteq> None \<longrightarrow> n < length rs"
      "x = None \<longrightarrow> n = length rs"
      "map category (detections f') = map category (detections ?g) @ take n (map ?lab rs)"
      by blast
    from format_detection_category(1) [OF Inr] have "category d = ?lab r" .
    with n have "Suc n \<le> length (r # rs) \<and> (x \<noteq> None \<longrightarrow> Suc n < length (r # rs)) \<and>
               (x = None \<longrightarrow> Suc n = length (r # rs)) \<and>
               map category (detections f') =
                 map category (detections f) @ take (Suc n) (map ?lab (r # rs))"
      by simp
    then show ?thesis by blast
  qed
qed

lemma for_each_batch_prefix:
  assumes "for_each_batch env self img arr gn pred f = (x, f')"
  shows "\<exists>n. n \<le> length (concat (map rev pred)) \<and>
           (x \<noteq> None \<longrightarrow> n < length (concat (map rev pred))) \<and>
           map category (detections f') =
             map category (detections f) @
             take n (map (\<lambda>r. str_nat (if use_model_native_classes self then raw_cls r
                                          else raw_cls r + 1)) (concat (map rev pred)))"
  using assms
proof (induction pred arbitrary: f)
  case Nil
  then show ?case by simp
next
  case (Cons det pred)
  let ?lab = "\<lambda>r. str_nat (if use_model_native_classes self then raw_cls r else raw_cls r + 1)"
  let ?all = "concat (map rev (det # pred))"
  have zero: ?case if "x \<noteq> None" "f' = f" "det \<noteq> []"
  proof -
    from that have "0 \<le> length ?all \<and> (x \<noteq> None \<longrightarrow> 0 < length ?all) \<and>
          map category (detections f') = map category (detections f) @ take 0 (map ?lab ?all)"
      by simp
    then show ?thesis by blast
  qed
  show ?case
  proof (cases "length det \<noteq> 0")
    case False
    with Cons.prems have "for_each_batch env self img arr gn pred f = (x, f')" by simp
    from Cons.IH [OF this] False show ?thesis by simp
  next
    case True
    then have ne: "det \<noteq> []" by simp
    show ?thesis
    proof (cases "scale_coords env (tensor_shape env img) (map xyxy det) (shape env arr)")
      case (Inl e)
      with True Cons.prems have "x \<noteq> None" "f' = f" by auto
      then show ?thesis using ne by (rule zero)
    next
      case boxes: (Inr boxes)
      show ?thesis
      proof (cases "assign_boxes det boxes")
        case (Inl e)
        with True boxes Cons.prems have "x \<noteq> None" "f' = f" by auto
        then show ?thesis using ne by (rule zero)
      next
        case det': (Inr det')
        obtain y g where rows: "for_each_row env self gn (rev det') f = (y, g)"
          by (cases "for_each_row env self gn (rev det') f")
        have "map raw_cls (rev det') = map raw_cls (rev det)"
          using assign_boxes_cls [OF det'] by (simp add: rev_map [symmetric])
        then have "map (\<lambda>k. str_nat (if use_model_native_classes self then k else k + 1))
                     (map raw_cls (rev det')) =
                   map (\<lambda>k. str_nat (if use_model_native_classes self then k else k + 1))
                     (map raw_cls (rev det))"
          by simp
        then have same: "map ?lab (rev det') = map ?lab (rev det)"
          by (simp add: comp_def)
        have len: "length (rev det') = length det"
          using assign_boxes_cls [OF det'] by (metis length_map length_rev)
        from for_each_row_prefix [OF rows] obtain m where m: "m \<le> length det"
          "y \<noteq> None \<longrightarrow> m < length det" "y = None \<longrightarrow> m = length det"
          "map category (detections g) = map category (detections f) @ take m (map ?lab (rev det))"
          unfolding same len by blast
        show ?thesis
        proof (cases y)
          case (Some e)
          with True boxes det' rows Cons.prems have x: "x = Some e" and f': "f' = g" by simp_all
          from Some m have "m < length det" by simp
          with m(4) x f' have "m \<le> length ?all \<and> (x \<noteq> None \<longrightarrow> m < length ?all) \<and>
             map category (detections f') = map category (detections f) @ take m (map ?lab ?all)"
            by simp
          then show ?thesis by blast
        next
          case None
          with True boxes det' rows Cons.prems
          have "for_each_batch env self img arr gn pred g = (x, f')" by simp
          from Cons.IH [OF this] obtain n where n: "n \<le> length (concat (map rev pred))"
            "x \<noteq> None \<longrightarrow> n < length (concat (map rev pred))"
            "map category (detections f') =
               map category (detections g) @ take n (map ?lab (concat (map rev pred)))"
            by blast
          from None m have md: "m = length det" by simp
          with m(4) n have "length det + n \<le> length ?all \<and>
             (x \<noteq> None \<longrightarrow> length det + n < length ?all) \<and>
             map category (detections f') =
               map category (detections f) @ take (length det + n) (map ?lab ?all)"
            by simp
          then show ?thesis by blast
        qed
      qed
    qed
  qed
qed

lemma try_block_prefix:
  assumes "fst (before_loop env self img thr sz) = Inr (arr, img', gn, pred)"
    and "raised (try_block env self img thr sz) \<noteq> None"
  shows "\<exists>n < length (concat (map rev pred)).
           map category (detections (locals (try_block env self img thr sz))) =
             take n (map (\<lambda>r. str_nat (if use_model_native_classes self then raw_cls r
                                          else raw_cls r + 1)) (concat (map rev pred)))"
proof -
  let ?self1 = "fst (snd (before_loop env self img thr sz))"
  let ?f0 = "\<lparr>detections = [], max_conf = 0\<rparr>"
  obtain x f where loop: "for_each_batch env ?self1 img' arr gn pred ?f0 = (x, f)"
    by (cases "for_each_batch env ?self1 img' arr gn pred ?f0")
  from try_block_loop [OF assms(1)] loop assms(2)
  have x: "x \<noteq> None" and f: "locals (try_block env self img thr sz) = f" by simp_all
  from for_each_batch_prefix [OF loop] x f show ?thesis
    by (auto simp: before_loop_native)
qed

subsection \<open>The loops stop at the first exception of the list of outcomes\<close>

lemma for_each_row_outcomes:
  assumes "for_each_row env self gn rs f = (x, f')"
  shows "\<exists>ds. detections f' = detections f @ ds \<and>
           (case x of
              None \<Rightarrow> map (format_detection env self gn) rs = map Inr ds
            | Some e \<Rightarrow> (\<exists>rest. map (format_detection env self gn) rs = map Inr ds @ Inl e # rest))"
  using assms
proof (induction rs arbitrary: f)
  case Nil
  then show ?case by simp
next
  case (Cons r rs)
  show ?case
  proof (cases "format_detection env self gn r")
    case (Inl e)
    with Cons.prems have "x = Some e" "f' = f" by simp_all
    with Inl have "detections f' = detections f @ [] \<and>
           (case x of
              None \<Rightarrow> map (format_detection env self gn) (r # rs) = map Inr []
            | Some e \<Rightarrow> (\<exists>rest. map (format_detection env self gn) (r # rs) =
                                  map Inr [] @ Inl e # rest))"
      by simp
    then show ?thesis by blast
  next
    case (Inr d)
    let ?g = "\<lparr>detections = detections f @ [d], max_conf = max (max_conf f) (conf d)\<rparr>"
    from Inr Cons.prems have "for_each_row env self gn rs ?g = (x, f')" by simp
    from Cons.IH [OF this] obtain ds where ds: "detections f' = detections ?g @ ds"
      "case x of
         None \<Rightarrow> map (format_detection env self gn) rs = map Inr ds
       | Some e \<Rightarrow> (\<exists>rest. map (format_detection env self gn) rs = map Inr ds @ Inl e # rest)"
      by blast
    from ds Inr have "detections f' = detections f @ (d # ds) \<and>
           (case x of
              None \<Rightarrow> map (format_detection env self gn) (r # rs) = map Inr (d # ds)
            | Some e \<Rightarrow> (\<exists>rest. map (format_detection env self gn) (r # rs) =
                                  map Inr (d # ds) @ Inl e # rest))"
      by (auto split: option.splits)
    then show ?thesis by blast
  qed
qed

lemma for_each_batch_outcomes:
  assumes "for_each_batch env self img arr gn pred f = (x, f')"
  shows "\<exists>ds. detections f' = detections f @ ds \<and>
           (case x of
              None \<Rightarrow> outcomes env self img arr gn pred = map Inr ds
            | Some e \<Rightarrow> (\<exists>rest. outcomes env self img arr gn pred = map Inr ds @ Inl e # rest))"
  using assms
proof (induction pred arbitrary: f)
  case Nil
  then show ?case by (simp add: outcomes_def)
next
  case (Cons det pred)
  have split: "outcomes env self img arr gn (det # pred) =
                 batch_outcomes env self img arr gn det @ outcomes env self img arr gn pred"
    by (simp add: outcomes_def)
  have stop: ?case if "x = Some e" "f' = f" "batch_outcomes env self img arr gn det = [Inl e]" for e
  proof -
    from that split have "detections f' = detections f @ [] \<and>
           (case x of
              None \<Rightarrow> outcomes env self img arr gn (det # pred) = map Inr []
            | Some e \<Rightarrow> (\<exists>rest. outcomes env self img arr gn (det # pred) =
                                  map Inr [] @ Inl e # rest))"
      by simp
    then show ?thesis by blast
  qed
  show ?case
  proof (cases "length det \<noteq> 0")
    case False
    with Cons.prems have rest: "for_each_batch env self img arr gn pred f = (x, f')" by simp
    from False split
    have eq: "outcomes env self img arr gn (det # pred) = outcomes env self img arr gn pred"
      by (simp add: batch_outcomes_def)
    from Cons.IH [OF rest] show ?thesis by (simp only: eq)
  next
    case True
    show ?thesis
    proof (cases "scale_coords env (tensor_shape env img) (map xyxy det) (shape env arr)")
      case (Inl e)
      with True Cons.prems have "x = Some e" "f' = f" by simp_all
      moreover from True Inl have "batch_outcomes env self img arr gn det = [Inl e]"
        by (simp add: batch_outcomes_def)
      ultimately show ?thesis by (rule stop)
    next
      case boxes: (Inr boxes)
      show ?thesis
      proof (cases "assign_boxes det boxes")
        case (Inl e)
        with True boxes Cons.prems have "x = Some e" "f' = f" by simp_all
        moreover from True boxes Inl have "batch_outcomes env self img arr gn det = [Inl e]"
          by (simp add: batch_outcomes_def)
        ultimately show ?thesis by (rule stop)
      next
        case det': (Inr det')
        from True boxes det'
        have bo: "batch_outcomes env self img arr gn det =
                    map (format_detection env self gn) (rev det')"
          by (simp add: batch_outcomes_def)
        obtain y g where rows: "for_each_row env self gn (rev det') f = (y, g)"
          by (cases "for_each_row env self gn (rev det') f")
        from for_each_row_outcomes [OF rows] obtain ds1 where ds1:
          "detections g = detections f @ ds1"
          "case y of
             None \<Rightarrow> map (format_detection env self gn) (rev det') = map Inr ds1
           | Some e \<Rightarrow> (\<exists>rest. map (format_detection env self gn) (rev det') =
                                 map Inr ds1 @ Inl e # rest)"
          by blast
        show ?thesis
        proof (cases y)
          case (Some e)
          with True boxes det' rows Cons.prems have x: "x = Some e" and f': "f' = g" by simp_all
          from ds1(2) Some obtain rest where
            "map (format_detection env self gn) (rev det') = map Inr ds1 @ Inl e # rest"
            by auto
          with split bo have "outcomes env self img arr gn (det # pred) =
            map Inr ds1 @ Inl e # (rest @ outcomes env self img arr gn pred)"
            by simp
          with x f' ds1(1) have "detections f' = detections f @ ds1 \<and>
           (case x of
              None \<Rightarrow> outcomes env self img arr gn (det # pred) = map Inr ds1
            | Some e \<Rightarrow> (\<exists>rest. outcomes env self img arr gn (det # pred) =
                                  map Inr ds1 @ Inl e # rest))"
            by simp
          then show ?thesis by blast
        next
          case None
          with True boxes det' rows Cons.prems
          have "for_each_batch env self img arr gn pred g = (x, f')" by simp
          from Cons.IH [OF this] obtain ds2 where ds2: "detections f' = detections g @ ds2"
            "case x of
               None \<Rightarrow> outcomes env self img arr gn pred = map Inr ds2
             | Some e \<Rightarrow> (\<exists>rest. outcomes env self img arr gn pred = map Inr ds2 @ Inl e # rest)"
            by blast
          from None ds1(2) have b1: "batch_outcomes env self img arr gn det = map Inr ds1"
            by (simp add: bo)
          from ds1(1) ds2 b1 split have "detections f' = detections f @ (ds1 @ ds2) \<and>
           (case x of
              None \<Rightarrow> outcomes env self img arr gn (det # pred) = map Inr (ds1 @ ds2)
            | Some e \<Rightarrow> (\<exists>rest. outcomes env self img arr gn (det # pred) =
                                  map Inr (ds1 @ ds2) @ Inl e # rest))"
            by (auto split: option.splits)
          then show ?thesis by blast
        qed
      qed
    qed
  qed
qed

lemma format_detection_flag:
  assumes "use_model_native_classes s1 = use_model_native_classes s2"
  shows "format_detection env s1 gn r = format_detection env s2 gn r"
  unfolding format_detection_def category_id_def assms by (rule refl)

lemma outcomes_flag:
  assumes "use_model_native_classes s1 = use_model_native_classes s2"
  shows "outcomes env s1 img arr gn pred = outcomes env s2 img arr gn pred"
proof -
  have "format_detection env s1 gn = format_detection env s2 gn"
    using format_detection_flag [OF assms] by (intro ext)
  then show ?thesis
    unfolding outcomes_def batch_outcomes_def by (simp only:)
qed

lemma try_block_outcomes:
  assumes "fst (before_loop env self img thr sz) = Inr (arr, img', gn, pred)"
    and "raised (try_block env self img thr sz) = Some e"
  shows "\<exists>rest. outcomes env self img' arr gn pred =
           map Inr (detections (locals (try_block env self img thr sz))) @ Inl e # rest"
proof -
  let ?self1 = "fst (snd (before_loop env self img thr sz))"
  let ?f0 = "\<lparr>detections = [], max_conf = 0\<rparr>"
  obtain x f where loop: "for_each_batch env ?self1 img' arr gn pred ?f0 = (x, f)"
    by (cases "for_each_batch env ?self1 img' arr gn pred ?f0")
  from try_block_loop [OF assms(1)] loop assms(2)
  have x: "x = Some e" and f: "locals (try_block env self img thr sz) = f" by simp_all
  from for_each_batch_outcomes [OF loop] x obtain rest where
    r: "outcomes env ?self1 img' arr gn pred = map Inr (detections f) @ Inl e # rest"
    by auto
  have "outcomes env self img' arr gn pred = outcomes env ?self1 img' arr gn pred"
    by (rule outcomes_flag [OF before_loop_native [of env self img thr sz], symmetric])
  also note r
  finally have "outcomes env self img' arr gn pred =
      map Inr (detections (locals (try_block env self img thr sz))) @ Inl e # rest"
    by (simp only: f)
  then show ?thesis by (rule exI)
qed

lemma outcomes_split_unique:
  assumes "map Inr ds @ Inl e # rest = map Inr ds' @ Inl e' # rest'"
  shows "ds = ds'"
  using assms
proof (induction ds arbitrary: ds')
  case Nil
  then show ?case by (cases ds') simp_all
next
  case (Cons d ds)
  then show ?case by (cases ds') auto
qed

text \<open>The definitions a concrete run unfolds.\<close>

lemmas demo_defs =
  generate_detections_one_image_def try_block_def before_loop_def select_target_size_def
  check_image_size_def forward_and_nms_def gain_def demo_env_def init_def assign_boxes_def
  format_detection_def category_id_def except_block_def traceback_print_exc_def finish_def
  row_animal_def row_person_def row_unknown_def Let_def str_nat.simps digit_char_def
  IMAGE_SIZE_def STRIDE_def

lemmas demo_more = demo_defs image_failed_def returned_detections_def

section \<open>The claims\<close>

text \<open>
  C1. The specification says that every call returns a result record, whatever a stage
  raises, with the file, \<open>max_detection_conf\<close> and \<open>detections\<close> fields, and the
  \<open>failure\<close> field exactly when something was raised. The code does not: the handler of
  line 187 ends with \<^verbatim>\<open>traceback.print_exc(e)\<close>, which raises TypeError, so the call
  hands the caller an exception and no record. Here non-max suppression returns one row of
  native class 3 to a detector without native-class passthrough: the try block raises the
  KeyError of line 168 and the call raises TypeError.
\<close>

theorem C1_exception_reaches_caller:
  "raised (try_block (demo_env [[row_unknown]]) (init False False False False)
             Readable (1 / 2) None) = Some (KeyError ''4 is not a valid class.'')
   \<and> returned (generate_detections_one_image (demo_env [[row_unknown]])
                 (init False False False False) Readable ''a.jpg'' (1 / 2) None) = Inl TypeError"
  by (simp add: demo_defs)

text \<open>
  C2, as the specification states it: whenever a stage raises, the record carries the
  failure marker, has no detections and \<open>max_detection_conf\<close> 0.0. Here non-max
  suppression returns a row of native class 3 followed by a row of class 1, without
  passthrough. The rows are processed in reverse, so the class-1 row is appended before the
  other raises KeyError: at the handler, \<open>detections\<close> holds one detection and
  \<open>max_conf\<close> is 0.75. (The confidence and the box of that row are binary fractions of
  few digits, which a truncation to three or four digits leaves as they are. The handler
  then raises, as in C1.)
\<close>

theorem C2_counterexample:
  "raised (try_block (demo_env [[row_unknown, row_person]]) (init False False False False)
             Readable (1 / 2) None) = Some (KeyError ''4 is not a valid class.'')
   \<and> detections (locals (try_block (demo_env [[row_unknown, row_person]])
        (init False False False False) Readable (1 / 2) None)) =
       [\<lparr>category = ''2'', conf = 3 / 4, bbox = [1 / 4, 1 / 4, 1 / 2, 1 / 2]\<rparr>]
   \<and> max_conf (locals (try_block (demo_env [[row_unknown, row_person]])
        (init False False False False) Readable (1 / 2) None)) = 3 / 4
   \<and> returned (generate_detections_one_image (demo_env [[row_unknown, row_person]])
        (init False False False False) Readable ''a.jpg'' (1 / 2) None) = Inl TypeError"
  by (simp add: demo_defs)

text \<open>
  C2, amended. When a stage of the try block raises, the handler stores the failure marker
  in the result dict, beside the file name; \<open>detections\<close> and \<open>max_conf\<close> keep what
  the loop appended before the exception. Exactly: the list of outcomes of the loops is the
  detections kept (each with its category, truncated confidence and truncated box, in the
  order processed), then the exception raised, then whatever would have followed; and
  \<open>max_conf\<close> is the maximum of 0.0 and the confidences kept. So the detections kept are
  those of all the rows before the first failure, fewer than there are rows. They are empty
  and 0.0 when the exception comes from a stage before the loop, and when, without
  passthrough, the first row processed (the last row of the first non-empty batch) has a
  native class whose successor is not 1, 2 or 3. Whether the record reaches the caller is
  the matter of C1.
\<close>

theorem C2_failure_keeps_accumulated:
  assumes "raised (try_block env self img thr sz) = Some e"
  shows "handler_result env image_id e ''failure'' = Some (Str (FAILURE_INFER env))
     \<and> handler_result env image_id e ''file'' = Some (Str image_id)
     \<and> max_conf (locals (try_block env self img thr sz)) =
         Max (insert 0 (set (map conf (detections (locals (try_block env self img thr sz))))))
     \<and> (isl (fst (before_loop env self img thr sz)) \<longrightarrow>
          detections (locals (try_block env self img thr sz)) = [] \<and>
          max_conf (locals (try_block env self img thr sz)) = 0)
     \<and> (\<not> use_model_native_classes self \<and>
        fst (before_loop env self img thr sz) = Inr (arr, img', gn, pred) \<and>
        concat (map rev pred) = x # rest \<and> raw_cls x + 1 \<notin> {1, 2, 3} \<longrightarrow>
          detections (locals (try_block env self img thr sz)) = [] \<and>
          max_conf (locals (try_block env self img thr sz)) = 0)
     \<and> (fst (before_loop env self img thr sz) = Inr (arr, img', gn, pred) \<longrightarrow>
          (\<exists>n < length (concat (map rev pred)).
             map category (detections (locals (try_block env self img thr sz))) =
               take n (map (\<lambda>r. str_nat (if use_model_native_classes self then raw_cls r
                                            else raw_cls r + 1)) (concat (map rev pred)))))
     \<and> (fst (before_loop env self img thr sz) = Inr (arr, img', gn, pred) \<longrightarrow>
          (\<exists>later. outcomes env self img' arr gn pred =
             map Inr (detections (locals (try_block env self img thr sz))) @ Inl e # later))"
proof (intro conjI impI)
  show "handler_result env image_id e ''failure'' = Some (Str (FAILURE_INFER env))"
    by (rule handler_result_marker)
  show "handler_result env image_id e ''file'' = Some (Str image_id)"
    by (rule handler_result_file)
  show "max_conf (locals (try_block env self img thr sz)) =
         Max (insert 0 (set (map conf (detections (locals (try_block env self img thr sz))))))"
    by (rule try_block_max_insert)
next
  assume "isl (fst (before_loop env self img thr sz))"
  then obtain e' where "fst (before_loop env self img thr sz) = Inl e'"
    by (cases "fst (before_loop env self img thr sz)") auto
  from try_block_before_loop_raises(2) [OF this]
  show "detections (locals (try_block env self img thr sz)) = []"
    and "max_conf (locals (try_block env self img thr sz)) = 0"
    by simp_all
next
  let ?self1 = "fst (snd (before_loop env self img thr sz))"
  let ?f0 = "\<lparr>detections = [], max_conf = 0\<rparr>"
  assume a: "\<not> use_model_native_classes self \<and>
        fst (before_loop env self img thr sz) = Inr (arr, img', gn, pred) \<and>
        concat (map rev pred) = x # rest \<and> raw_cls x + 1 \<notin> {1, 2, 3}"
  then have n: "\<not> use_model_native_classes ?self1" by (simp add: before_loop_native)
  from a have front: "fst (before_loop env self img thr sz) = Inr (arr, img', gn, pred)"
    and first: "concat (map rev pred) = x # rest" and bad: "raw_cls x + 1 \<notin> {1, 2, 3}"
    by simp_all
  from for_each_batch_first_unknown [OF n first bad, of env img' arr gn ?f0]
  obtain e' where "for_each_batch env ?self1 img' arr gn pred ?f0 = (Some e', ?f0)" ..
  with try_block_loop(2) [OF front]
  show "detections (locals (try_block env self img thr sz)) = []"
    and "max_conf (locals (try_block env self img thr sz)) = 0"
    by simp_all
next
  assume "fst (before_loop env self img thr sz) = Inr (arr, img', gn, pred)"
  moreover from assms have "raised (try_block env self img thr sz) \<noteq> None" by simp
  ultimately show "\<exists>n < length (concat (map rev pred)).
      map category (detections (locals (try_block env self img thr sz))) =
        take n (map (\<lambda>r. str_nat (if use_model_native_classes self then raw_cls r
                                     else raw_cls r + 1)) (concat (map rev pred)))"
    by (rule try_block_prefix)
next
  assume "fst (before_loop env self img thr sz) = Inr (arr, img', gn, pred)"
  then show "\<exists>later. outcomes env self img' arr gn pred =
      map Inr (detections (locals (try_block env self img thr sz))) @ Inl e # later"
    using assms by (rule try_block_outcomes)
qed

text \<open>Runs of the amended C2: a row of native class 3 processed after a recognised row
  (one detection kept, \<open>max_conf\<close> 0.75), the same row processed first (nothing kept),
  and an image whose conversion raises.\<close>

theorem C2_failure_keeps_accumulated_witness:
  "raised (try_block (demo_env [[row_unknown, row_person]]) (init False False False False)
             Readable (1 / 2) None) = Some (KeyError ''4 is not a valid class.'')
   \<and> handler_result (demo_env [[row_unknown, row_person]]) ''a.jpg''
        (KeyError ''4 is not a valid class.'') ''failure'' = Some (Str ''Failure inference'')
   \<and> outcomes (demo_env [[row_unknown, row_person]]) (init False False False False) () ()
        [200, 100, 200, 100] [[row_unknown, row_person]] =
       [Inr \<lparr>category = ''2'', conf = 3 / 4, bbox = [1 / 4, 1 / 4, 1 / 2, 1 / 2]\<rparr>,
        Inl (KeyError ''4 is not a valid class.'')]
   \<and> detections (locals (try_block (demo_env [[row_unknown, row_person]])
        (init False False False False) Readable (1 / 2) None)) =
       [\<lparr>category = ''2'', conf = 3 / 4, bbox = [1 / 4, 1 / 4, 1 / 2, 1 / 2]\<rparr>]
   \<and> max_conf (locals (try_block (demo_env [[row_unknown, row_person]])
        (init False False False False) Readable (1 / 2) None)) = 3 / 4
   \<and> detections (locals (try_block (demo_env [[row_person, row_unknown]])
        (init False False False False) Readable (1 / 2) None)) = []
   \<and> max_conf (locals (try_block (demo_env [[row_person, row_unknown]])
        (init False False False False) Readable (1 / 2) None)) = 0
   \<and> raised (try_block (demo_env [[row_person]]) (init False False False False)
             Truncated (1 / 2) None) = Some (OtherException ''image file is truncated'')
   \<and> detections (locals (try_block (demo_env [[row_person]])
        (init False False False False) Truncated (1 / 2) None)) = []"
proof -
  let ?D = "init False False False False"
  let ?k = "KeyError ''4 is not a valid class.''"
  let ?d = "\<lparr>category = ''2'', conf = 3 / 4, bbox = [1 / 4, 1 / 4, 1 / 2, 1 / 2]\<rparr>"
  let ?E1 = "demo_env [[row_unknown, row_person]]"
  let ?L1 = "locals (try_block ?E1 ?D Readable (1 / 2) None)"
  have n: "\<not> use_model_native_classes ?D"
    by (simp add: init_def)
  \<comment> \<open>one detection is kept\<close>
  have r1: "raised (try_block ?E1 ?D Readable (1 / 2) None) = Some ?k"
    by (simp add: demo_defs)
  have front1: "fst (before_loop ?E1 ?D Readable (1 / 2) None) =
                  Inr ((), (), [200, 100, 200, 100], [[row_unknown, row_person]])"
    by (simp add: demo_defs)
  have outs: "outcomes ?E1 ?D () () [200, 100, 200, 100] [[row_unknown, row_person]] =
                [Inr ?d, Inl ?k]"
    by (simp add: outcomes_def batch_outcomes_def demo_defs)
  note c1 = C2_failure_keeps_accumulated [OF r1, of "''a.jpg''" "()" "()" "[200, 100, 200, 100]"
      "[[row_unknown, row_person]]"]
  from c1 have marker: "handler_result ?E1 ''a.jpg'' ?k ''failure'' = Some (Str ''Failure inference'')"
    by (simp add: demo_env_def)
  from c1 front1 obtain later where
    "outcomes ?E1 ?D () () [200, 100, 200, 100] [[row_unknown, row_person]] =
       map Inr (detections ?L1) @ Inl ?k # later"
    by blast
  with outs have "map Inr (detections ?L1) @ Inl ?k # later = map Inr [?d] @ Inl ?k # []"
    by simp
  then have kept: "detections ?L1 = [?d]"
    by (rule outcomes_split_unique)
  from c1 have "max_conf ?L1 = Max (insert 0 (set (map conf (detections ?L1))))"
    by blast
  with kept have m: "max_conf ?L1 = 3 / 4"
    by simp
  \<comment> \<open>the unrecognised class comes first: nothing is kept\<close>
  let ?E2 = "demo_env [[row_person, row_unknown]]"
  have r2: "raised (try_block ?E2 ?D Readable (1 / 2) None) = Some ?k"
    by (simp add: demo_defs)
  have front2: "fst (before_loop ?E2 ?D Readable (1 / 2) None) =
                  Inr ((), (), [200, 100, 200, 100], [[row_person, row_unknown]])"
    by (simp add: demo_defs)
  have first: "concat (map rev [[row_person, row_unknown]]) = row_unknown # [row_person]"
    by simp
  have bad: "raw_cls row_unknown + 1 \<notin> {1, 2, 3}"
    by (simp add: row_unknown_def)
  from C2_failure_keeps_accumulated [OF r2, of "''a.jpg''" "()" "()" "[200, 100, 200, 100]"
      "[[row_person, row_unknown]]" row_unknown "[row_person]"] n front2 first bad
  have none: "detections (locals (try_block ?E2 ?D Readable (1 / 2) None)) = []"
    and zero: "max_conf (locals (try_block ?E2 ?D Readable (1 / 2) None)) = 0"
    by blast+
  \<comment> \<open>the conversion raises\<close>
  have r3: "raised (try_block (demo_env [[row_person]]) ?D Truncated (1 / 2) None) =
              Some (OtherException ''image file is truncated'')"
    by (simp add: demo_defs)
  have early: "isl (fst (before_loop (demo_env [[row_person]]) ?D Truncated (1 / 2) None))"
    by (simp add: demo_defs)
  from C2_failure_keeps_accumulated [OF r3, of "''a.jpg''"] early
  have d3: "detections (locals (try_block (demo_env [[row_person]]) ?D Truncated (1 / 2) None)) = []"
    by blast
  from r1 marker outs kept m none zero r3 d3 show ?thesis by blast
qed

text \<open>
  C3, as the specification states it: an \<open>image_size\<close> that is neither an int nor of
  length 2 is raised to the caller before any work, past the per-image boundary. Here the
  size is a sequence of length 3. The assertion of line 104 is inside the try block, so the
  handler of line 187 catches it: it prints the failure line for the AssertionError, and
  what reaches the caller is the TypeError of the handler's last line, not the assertion.
\<close>

theorem C3_counterexample:
  "returned (generate_detections_one_image (demo_env [[row_animal]])
      (init False False False False) Readable ''a.jpg'' (1 / 2) (Some (SeqSize [1, 2, 3]))) =
     Inl TypeError
   \<and> stdout (generate_detections_one_image (demo_env [[row_animal]])
      (init False False False False) Readable ''a.jpg'' (1 / 2) (Some (SeqSize [1, 2, 3]))) =
     [FailureMessage ''a.jpg'' AssertionError]"
  by (simp add: demo_defs)

text \<open>
  C3, amended. An \<open>image_size\<close> that fails the check of line 104 raises inside the try
  block (AssertionError, or TypeError from \<^verbatim>\<open>len\<close> for an object without a
  length), once the image has been converted to an array and before letterboxing and
  inference: nothing is printed before it, the detector is unchanged, there are no
  detections and \<open>max_conf\<close> is 0.0. The per-image boundary catches it as it does every
  other exception: the handler stores the failure marker and prints the failure line.
\<close>

theorem C3_size_error_is_caught:
  assumes "np_asarray env img = Inr arr" and "check_image_size s = Inl e"
  shows "(e = AssertionError \<or> e = TypeError)
     \<and> raised (try_block env self img thr (Some s)) = Some e
     \<and> locals (try_block env self img thr (Some s)) = \<lparr>detections = [], max_conf = 0\<rparr>
     \<and> self_after (try_block env self img thr (Some s)) = self
     \<and> printed (try_block env self img thr (Some s)) = []
     \<and> handler_result env image_id e ''failure'' = Some (Str (FAILURE_INFER env))
     \<and> stdout (generate_detections_one_image env self img image_id thr (Some s)) =
         [FailureMessage image_id e]
     \<and> detector (generate_detections_one_image env self img image_id thr (Some s)) = self"
proof -
  note b = before_loop_bad_size [OF assms, of self thr]
  have t: "try_block env self img thr (Some s) =
             \<lparr>raised = Some e, locals = \<lparr>detections = [], max_conf = 0\<rparr>,
              self_after = self, printed = []\<rparr>"
    by (simp add: try_block_def b)
  then have r: "raised (try_block env self img thr (Some s)) = Some e" by simp
  from call_raised [OF r, of image_id] t check_image_size_errors [OF assms(2)]
  show ?thesis
    by (simp add: handler_result_marker)
qed

text \<open>Runs of the amended C3: a sequence of length 3 and an object without a length.\<close>

theorem C3_size_error_is_caught_witness:
  "np_asarray (demo_env [[row_animal]]) Readable = Inr ()
   \<and> check_image_size (SeqSize [1, 2, 3]) = Inl AssertionError
   \<and> check_image_size NoLenSize = Inl TypeError
   \<and> raised (try_block (demo_env [[row_animal]]) (init False False False False) Readable (1 / 2)
        (Some (SeqSize [1, 2, 3]))) = Some AssertionError
   \<and> stdout (generate_detections_one_image (demo_env [[row_animal]])
        (init False False False False) Readable ''a.jpg'' (1 / 2) (Some NoLenSize)) =
       [FailureMessage ''a.jpg'' TypeError]"
proof -
  have a: "np_asarray (demo_env [[row_animal]]) Readable = Inr ()"
    by (simp add: demo_env_def)
  have c1: "check_image_size (SeqSize [1, 2, 3]) = Inl AssertionError"
    by (simp add: check_image_size_def)
  have c2: "check_image_size NoLenSize = Inl TypeError"
    by (simp add: check_image_size_def)
  from C3_size_error_is_caught [OF a c1, of "init False False False False" "1 / 2" "''a.jpg''"]
    C3_size_error_is_caught [OF a c2, of "init False False False False" "1 / 2" "''a.jpg''"]
    a c1 c2
  show ?thesis by simp
qed

text \<open>
  C4. In every returned record, \<open>max_detection_conf\<close> is the maximum of the \<open>conf\<close>
  values of the record's detections, and 0.0 when there is none. Confidences are scores,
  so none is negative; line 92 starts the maximum at 0.0.
\<close>

theorem C4_max_detection_conf:
  assumes "returned (generate_detections_one_image env self img image_id thr sz) = Inr r"
    and "confs_nonneg r"
  shows "max_conf_consistent r"
proof -
  let ?t = "try_block env self img thr sz"
  have completed: "raised ?t = None"
  proof (cases "raised ?t")
    case (Some e)
    from call_raised [OF this, of image_id] assms(1) show ?thesis by simp
  qed simp
  from call_completed [OF completed, of image_id] assms(1)
  have r: "r = finish [''file'' \<mapsto> Str image_id] (locals ?t)" by simp
  let ?ds = "detections (locals ?t)"
  have dets: "r ''detections'' = Some (Detections ?ds)"
    and m: "r ''max_detection_conf'' = Some (Float (max_conf (locals ?t)))"
    unfolding r by (simp_all add: finish_def)
  have fold: "max_conf (locals ?t) = fold max (map conf ?ds) 0"
    by (rule try_block_max)
  have "max_conf (locals ?t) = (if ?ds = [] then 0 else Max (set (map conf ?ds)))"
  proof (cases "?ds = []")
    case True
    with fold show ?thesis by simp
  next
    case False
    from assms(2) dets have "\<forall>x\<in>set (map conf ?ds). 0 \<le> x"
      by (simp add: confs_nonneg_def list_all_iff)
    with False have "fold max (map conf ?ds) 0 = Max (set (map conf ?ds))"
      by (intro fold_max_nonneg) simp_all
    with fold False show ?thesis by simp
  qed
  with dets m show ?thesis by (simp add: max_conf_consistent_def)
qed

text \<open>A run of C4: two rows of recognised classes, returned in reverse order, with
  maximum 0.9.\<close>

theorem C4_max_detection_conf_witness:
  "returned (generate_detections_one_image (demo_env [[row_person, row_animal]])
      (init False False False False) Readable ''a.jpg'' (1 / 2) None) =
     Inr [''file'' \<mapsto> Str ''a.jpg'',
          ''max_detection_conf'' \<mapsto> Float (9 / 10),
          ''detections'' \<mapsto> Detections
             [\<lparr>category = ''1'', conf = 9 / 10, bbox = [0, 0, 1, 1]\<rparr>,
              \<lparr>category = ''2'', conf = 3 / 4, bbox = [1 / 4, 1 / 4, 1 / 2, 1 / 2]\<rparr>]]
   \<and> max_conf_consistent
       [''file'' \<mapsto> Str ''a.jpg'',
        ''max_detection_conf'' \<mapsto> Float (9 / 10),
        ''detections'' \<mapsto> Detections
           [\<lparr>category = ''1'', conf = 9 / 10, bbox = [0, 0, 1, 1]\<rparr>,
            \<lparr>category = ''2'', conf = 3 / 4, bbox = [1 / 4, 1 / 4, 1 / 2, 1 / 2]\<rparr>]]"
proof -
  let ?r = "[''file'' \<mapsto> Str ''a.jpg'',
        ''max_detection_conf'' \<mapsto> Float (9 / 10),
        ''detections'' \<mapsto> Detections
           [\<lparr>category = ''1'', conf = 9 / 10, bbox = [0, 0, 1, 1]\<rparr>,
            \<lparr>category = ''2'', conf = 3 / 4, bbox = [1 / 4, 1 / 4, 1 / 2, 1 / 2]\<rparr>]]"
  have h: "returned (generate_detections_one_image (demo_env [[row_person, row_animal]])
      (init False False False False) Readable ''a.jpg'' (1 / 2) None) = Inr ?r"
    by (simp add: demo_defs)
  have n: "confs_nonneg ?r"
    by (simp add: confs_nonneg_def)
  from C4_max_detection_conf [OF h n] h show ?thesis by simp
qed

text \<open>
  C5. Without native-class passthrough the category of every detection of a call that did
  not fail is the native class index plus 1, written as a string, in the order the rows are
  processed (each batch reversed); a row anywhere in the output of non-max suppression whose
  index plus 1 is not 1, 2 or 3 makes the whole image fail. With passthrough the category is
  the native index itself as a string.
\<close>

theorem C5_category_policy:
  assumes "fst (before_loop env self img thr sz) = Inr (arr, img', gn, pred)"
  shows "(\<not> use_model_native_classes self \<and>
          \<not> image_failed (generate_detections_one_image env self img image_id thr sz) \<longrightarrow>
            map_option (map category)
              (returned_detections (generate_detections_one_image env self img image_id thr sz)) =
            Some (map (\<lambda>x. str_nat (raw_cls x + 1)) (concat (map rev pred))))
       \<and> (\<not> use_model_native_classes self \<and>
          (\<exists>x \<in> set (concat pred). raw_cls x + 1 \<notin> {1, 2, 3}) \<longrightarrow>
            image_failed (generate_detections_one_image env self img image_id thr sz))
       \<and> (use_model_native_classes self \<and>
          \<not> image_failed (generate_detections_one_image env self img image_id thr sz) \<longrightarrow>
            map_option (map category)
              (returned_detections (generate_detections_one_image env self img image_id thr sz)) =
            Some (map (\<lambda>x. str_nat (raw_cls x)) (concat (map rev pred))))"
proof (intro conjI impI)
  assume "\<not> use_model_native_classes self \<and>
          \<not> image_failed (generate_detections_one_image env self img image_id thr sz)"
  with categories_completed [OF assms, of image_id]
  show "map_option (map category)
              (returned_detections (generate_detections_one_image env self img image_id thr sz)) =
            Some (map (\<lambda>x. str_nat (raw_cls x + 1)) (concat (map rev pred)))"
    by simp
next
  assume "use_model_native_classes self \<and>
          \<not> image_failed (generate_detections_one_image env self img image_id thr sz)"
  with categories_completed [OF assms, of image_id]
  show "map_option (map category)
              (returned_detections (generate_detections_one_image env self img image_id thr sz)) =
            Some (map (\<lambda>x. str_nat (raw_cls x)) (concat (map rev pred)))"
    by simp
next
  let ?self1 = "fst (snd (before_loop env self img thr sz))"
  assume a: "\<not> use_model_native_classes self \<and>
          (\<exists>x \<in> set (concat pred). raw_cls x + 1 \<notin> {1, 2, 3})"
  then obtain x where x: "x \<in> set (concat pred)" "raw_cls x + 1 \<notin> {1, 2, 3}" by blast
  from a have "\<not> use_model_native_classes ?self1" by (simp add: before_loop_native)
  from for_each_batch_unknown [OF this x]
  have "raised (try_block env self img thr sz) \<noteq> None"
    by (simp add: try_block_loop(1) [OF assms])
  then show "image_failed (generate_detections_one_image env self img image_id thr sz)"
    by (simp add: image_failed_iff)
qed

text \<open>Runs of C5: two recognised rows without passthrough, a row of native class 3
  without passthrough (the image fails) and with it (category 3).\<close>

theorem C5_category_policy_witness:
  "fst (before_loop (demo_env [[row_person, row_animal]]) (init False False False False)
          Readable (1 / 2) None) =
     Inr ((), (), [200, 100, 200, 100], [[row_person, row_animal]])
   \<and> \<not> image_failed (generate_detections_one_image (demo_env [[row_person, row_animal]])
          (init False False False False) Readable ''a.jpg'' (1 / 2) None)
   \<and> map_option (map category)
       (returned_detections (generate_detections_one_image (demo_env [[row_person, row_animal]])
          (init False False False False) Readable ''a.jpg'' (1 / 2) None)) = Some [''1'', ''2'']
   \<and> image_failed (generate_detections_one_image (demo_env [[row_unknown, row_animal]])
          (init False False False False) Readable ''a.jpg'' (1 / 2) None)
   \<and> map_option (map category)
       (returned_detections (generate_detections_one_image (demo_env [[row_unknown, row_animal]])
          (init False False False True) Readable ''a.jpg'' (1 / 2) None)) = Some [''0'', ''3'']"
proof -
  have f1: "fst (before_loop (demo_env [[row_person, row_animal]]) (init False False False False)
          Readable (1 / 2) None) =
     Inr ((), (), [200, 100, 200, 100], [[row_person, row_animal]])"
    by (simp add: demo_more)
  have f2: "fst (before_loop (demo_env [[row_unknown, row_animal]]) (init False False False False)
          Readable (1 / 2) None) =
     Inr ((), (), [200, 100, 200, 100], [[row_unknown, row_animal]])"
    by (simp add: demo_more)
  have f3: "fst (before_loop (demo_env [[row_unknown, row_animal]]) (init False False False True)
          Readable (1 / 2) None) =
     Inr ((), (), [200, 100, 200, 100], [[row_unknown, row_animal]])"
    by (simp add: demo_more)
  have ok1: "\<not> image_failed (generate_detections_one_image (demo_env [[row_person, row_animal]])
          (init False False False False) Readable ''a.jpg'' (1 / 2) None)"
    by (simp add: demo_more)
  have ok3: "\<not> image_failed (generate_detections_one_image (demo_env [[row_unknown, row_animal]])
          (init False False False True) Readable ''a.jpg'' (1 / 2) None)"
    by (simp add: demo_more)
  from C5_category_policy [OF f1, of "''a.jpg''"] ok1
  have c1: "map_option (map category)
       (returned_detections (generate_detections_one_image (demo_env [[row_person, row_animal]])
          (init False False False False) Readable ''a.jpg'' (1 / 2) None)) = Some [''1'', ''2'']"
    by (simp add: init_def row_person_def row_animal_def str_nat.simps digit_char_def)
  from C5_category_policy [OF f2, of "''a.jpg''"]
  have c2: "image_failed (generate_detections_one_image (demo_env [[row_unknown, row_animal]])
          (init False False False False) Readable ''a.jpg'' (1 / 2) None)"
    by (simp add: init_def row_unknown_def row_animal_def)
  from C5_category_policy [OF f3, of "''a.jpg''"] ok3
  have c3: "map_option (map category)
       (returned_detections (generate_detections_one_image (demo_env [[row_unknown, row_animal]])
          (init False False False True) Readable ''a.jpg'' (1 / 2) None)) = Some [''0'', ''3'']"
    by (simp add: init_def row_unknown_def row_animal_def str_nat.simps digit_char_def)
  from f1 ok1 c1 c2 c3 show ?thesis by blast
qed

text \<open>
  C8, as the specification states it: any call with the default size clears the warning
  flag. Here a first call with size 640 sets the flag, and a second call, with the default
  size, is given an image whose conversion to an array raises (line 96): the try block is
  left before line 114, and the flag is still set afterwards.
\<close>

theorem C8_counterexample:
  "printed_image_size_warning
     (detector (generate_detections_one_image (demo_env [[row_animal]])
        (detector (generate_detections_one_image (demo_env [[row_animal]])
           (init False False False False) Readable ''a.jpg'' (1 / 2) (Some (IntSize 640))))
        Truncated ''b.jpg'' (1 / 2) None))"
  by (simp add: demo_defs)

text \<open>
  C8, amended. When the image converts to an array: a call with a well-formed non-default
  \<open>image_size\<close> while the flag is clear prints the warning once and sets the flag; a call
  with the default size prints no warning and clears the flag. A call with a non-default
  \<open>image_size\<close> while the flag is set prints no warning and leaves the flag set, whatever
  happens in it. When the conversion raises, or the size fails the check of line 104, the
  call prints no warning and leaves the flag as it was.
\<close>

theorem C8_warning_state:
  "(np_asarray env img = Inr arr \<and> check_image_size s = Inr () \<and>
      \<not> printed_image_size_warning self \<longrightarrow>
        size_warnings (stdout (generate_detections_one_image env self img image_id thr (Some s))) = [s] \<and>
        printed_image_size_warning
          (detector (generate_detections_one_image env self img image_id thr (Some s))))
   \<and> (printed_image_size_warning self \<longrightarrow>
        size_warnings (stdout (generate_detections_one_image env self img image_id thr (Some s))) = [] \<and>
        printed_image_size_warning
          (detector (generate_detections_one_image env self img image_id thr (Some s))))
   \<and> (np_asarray env img = Inr arr \<longrightarrow>
        size_warnings (stdout (generate_detections_one_image env self img image_id thr None)) = [] \<and>
        \<not> printed_image_size_warning
            (detector (generate_detections_one_image env self img image_id thr None)))
   \<and> (isl (np_asarray env img) \<or> sz = Some s \<and> isl (check_image_size s) \<longrightarrow>
        size_warnings (stdout (generate_detections_one_image env self img image_id thr sz)) = [] \<and>
        printed_image_size_warning
          (detector (generate_detections_one_image env self img image_id thr sz)) =
        printed_image_size_warning self)"
proof -
  have raises: "snd (before_loop env self img thr sz') = (self, [])"
    if "isl (np_asarray env img)" for sz'
  proof -
    from that obtain e where "np_asarray env img = Inl e"
      by (cases "np_asarray env img") auto
    then show ?thesis by (simp add: before_loop_conversion_raises)
  qed
  have after: "snd (before_loop env self img thr sz') = snd (select_target_size self sz')"
    if "\<not> isl (np_asarray env img)" for sz'
  proof -
    from that obtain a where "np_asarray env img = Inr a"
      by (cases "np_asarray env img") auto
    then show ?thesis by (rule before_loop_after_conversion)
  qed
  have first: "np_asarray env img = Inr arr \<and> check_image_size s = Inr () \<and>
      \<not> printed_image_size_warning self \<longrightarrow>
        size_warnings (stdout (generate_detections_one_image env self img image_id thr (Some s))) = [s] \<and>
        printed_image_size_warning
          (detector (generate_detections_one_image env self img image_id thr (Some s)))"
    by (auto simp: call_detector call_size_warnings before_loop_after_conversion
        select_target_size_def)
  have second: "printed_image_size_warning self \<longrightarrow>
        size_warnings (stdout (generate_detections_one_image env self img image_id thr (Some s))) = [] \<and>
        printed_image_size_warning
          (detector (generate_detections_one_image env self img image_id thr (Some s)))"
  proof (cases "isl (np_asarray env img)")
    case True
    from raises [OF this, of "Some s"] show ?thesis
      by (simp add: call_detector call_size_warnings)
  next
    case False
    from after [OF this, of "Some s"] show ?thesis
      by (simp add: call_detector call_size_warnings select_target_size_def split: sum.splits)
  qed
  have third: "np_asarray env img = Inr arr \<longrightarrow>
        size_warnings (stdout (generate_detections_one_image env self img image_id thr None)) = [] \<and>
        \<not> printed_image_size_warning
            (detector (generate_detections_one_image env self img image_id thr None))"
    by (auto simp: call_detector call_size_warnings before_loop_after_conversion
        select_target_size_def)
  have fourth: "isl (np_asarray env img) \<or> sz = Some s \<and> isl (check_image_size s) \<longrightarrow>
        size_warnings (stdout (generate_detections_one_image env self img image_id thr sz)) = [] \<and>
        printed_image_size_warning
          (detector (generate_detections_one_image env self img image_id thr sz)) =
        printed_image_size_warning self"
  proof (cases "isl (np_asarray env img)")
    case True
    from raises [OF this, of sz] show ?thesis
      by (simp add: call_detector call_size_warnings)
  next
    case False
    from after [OF this, of sz] False show ?thesis
      by (auto simp: call_detector call_size_warnings select_target_size_def split: sum.splits)
  qed
  from first second third fourth show ?thesis by blast
qed

text \<open>A run of the amended C8 on one detector: size 640 (warning), size 640 again
  (no warning), default size (flag cleared).\<close>

theorem C8_warning_state_witness:
  "np_asarray (demo_env [[row_animal]]) Readable = Inr ()
   \<and> check_image_size (IntSize 640) = Inr ()
   \<and> \<not> printed_image_size_warning (init False False False False)
   \<and> size_warnings (stdout (generate_detections_one_image (demo_env [[row_animal]])
        (init False False False False) Readable ''a.jpg'' (1 / 2) (Some (IntSize 640)))) =
       [IntSize 640]
   \<and> size_warnings (stdout (generate_detections_one_image (demo_env [[row_animal]])
        (detector (generate_detections_one_image (demo_env [[row_animal]])
           (init False False False False) Readable ''a.jpg'' (1 / 2) (Some (IntSize 640))))
        Readable ''b.jpg'' (1 / 2) (Some (IntSize 640)))) = []
   \<and> \<not> printed_image_size_warning
        (detector (generate_detections_one_image (demo_env [[row_animal]])
          (detector (generate_detections_one_image (demo_env [[row_animal]])
             (init False False False False) Readable ''a.jpg'' (1 / 2) (Some (IntSize 640))))
          Readable ''c.jpg'' (1 / 2) None))"
proof -
  let ?E = "demo_env [[row_animal]]"
  let ?D0 = "init False False False False"
  let ?c1 = "generate_detections_one_image ?E ?D0 Readable ''a.jpg'' (1 / 2) (Some (IntSize 640))"
  have a: "np_asarray ?E Readable = Inr ()"
    by (simp add: demo_env_def)
  have c: "check_image_size (IntSize 640) = Inr ()"
    by (simp add: check_image_size_def)
  have n: "\<not> printed_image_size_warning ?D0"
    by (simp add: init_def)
  from C8_warning_state [where env = ?E and img = Readable and arr = "()" and s = "IntSize 640"
      and self = ?D0 and image_id = "''a.jpg''" and thr = "1 / 2"] a c n
  have one: "size_warnings (stdout ?c1) = [IntSize 640]"
    and flag: "printed_image_size_warning (detector ?c1)"
    by blast+
  from C8_warning_state [where env = ?E and img = Readable and arr = "()" and s = "IntSize 640"
      and self = "detector ?c1" and image_id = "''b.jpg''" and thr = "1 / 2"] flag
  have two: "size_warnings (stdout (generate_detections_one_image ?E (detector ?c1)
               Readable ''b.jpg'' (1 / 2) (Some (IntSize 640)))) = []"
    by blast
  from C8_warning_state [where env = ?E and img = Readable and arr = "()"
      and self = "detector ?c1" and image_id = "''c.jpg''" and thr = "1 / 2"] a
  have three: "\<not> printed_image_size_warning
        (detector (generate_detections_one_image ?E (detector ?c1) Readable ''c.jpg'' (1 / 2) None))"
    by blast
  from a c n one two three show ?thesis by blast
qed

text \<open>
  C10. With \<open>use_model_native_classes\<close> the class column is never checked: the category
  of every detection of a call that did not fail is the native index as a string, whatever
  the index; and rewriting the class column of the output of non-max suppression in any way
  changes neither the exception the try block ends with, if any, nor whether the image
  fails.
\<close>

theorem C10_native_classes_unchecked:
  assumes "use_model_native_classes self"
  shows "(fst (before_loop env self img thr sz) = Inr (arr, img', gn, pred) \<and>
          \<not> image_failed (generate_detections_one_image env self img image_id thr sz) \<longrightarrow>
            map_option (map category)
              (returned_detections (generate_detections_one_image env self img image_id thr sz)) =
            Some (map (\<lambda>x. str_nat (raw_cls x)) (concat (map rev pred))))
       \<and> raised (try_block (relabel h env) self img thr sz) =
           raised (try_block env self img thr sz)
       \<and> image_failed (generate_detections_one_image (relabel h env) self img image_id thr sz) =
           image_failed (generate_detections_one_image env self img image_id thr sz)"
proof (intro conjI impI)
  assume a: "fst (before_loop env self img thr sz) = Inr (arr, img', gn, pred) \<and>
          \<not> image_failed (generate_detections_one_image env self img image_id thr sz)"
  then have front: "fst (before_loop env self img thr sz) = Inr (arr, img', gn, pred)"
    and ok: "\<not> image_failed (generate_detections_one_image env self img image_id thr sz)"
    by simp_all
  from categories_completed [OF front ok] assms
  show "map_option (map category)
          (returned_detections (generate_detections_one_image env self img image_id thr sz)) =
        Some (map (\<lambda>x. str_nat (raw_cls x)) (concat (map rev pred)))"
    by simp
next
  show "raised (try_block (relabel h env) self img thr sz) =
          raised (try_block env self img thr sz)"
    using assms by (rule raised_relabel)
  then show "image_failed (generate_detections_one_image (relabel h env) self img image_id thr sz) =
          image_failed (generate_detections_one_image env self img image_id thr sz)"
    by (simp add: image_failed_iff)
qed

text \<open>A run of C10: native classes 3 and 0 pass through, and so does class 41 in every
  row.\<close>

theorem C10_native_classes_unchecked_witness:
  "use_model_native_classes (init False False False True)
   \<and> \<not> image_failed (generate_detections_one_image (demo_env [[row_unknown, row_animal]])
          (init False False False True) Readable ''a.jpg'' (1 / 2) None)
   \<and> map_option (map category)
       (returned_detections (generate_detections_one_image (demo_env [[row_unknown, row_animal]])
          (init False False False True) Readable ''a.jpg'' (1 / 2) None)) = Some [''0'', ''3'']
   \<and> \<not> image_failed (generate_detections_one_image
          (relabel (\<lambda>r. 41) (demo_env [[row_unknown, row_animal]]))
          (init False False False True) Readable ''a.jpg'' (1 / 2) None)"
proof -
  let ?E = "demo_env [[row_unknown, row_animal]]"
  let ?D = "init False False False True"
  have n: "use_model_native_classes ?D"
    by (simp add: init_def)
  have front: "fst (before_loop ?E ?D Readable (1 / 2) None) =
                 Inr ((), (), [200, 100, 200, 100], [[row_unknown, row_animal]])"
    by (simp add: demo_more)
  have ok: "\<not> image_failed (generate_detections_one_image ?E ?D Readable ''a.jpg'' (1 / 2) None)"
    by (simp add: demo_more)
  note c10 = C10_native_classes_unchecked [OF n, of ?E Readable "1 / 2" None "()" "()"
      "[200, 100, 200, 100]" "[[row_unknown, row_animal]]" "''a.jpg''" "\<lambda>r. 41"]
  from c10 front ok
  have cats: "map_option (map category)
       (returned_detections (generate_detections_one_image ?E ?D Readable ''a.jpg'' (1 / 2) None)) =
       Some [''0'', ''3'']"
    by (simp add: row_unknown_def row_animal_def str_nat.simps digit_char_def)
  from c10 ok
  have same: "\<not> image_failed (generate_detections_one_image (relabel (\<lambda>r. 41) ?E) ?D
                Readable ''a.jpg'' (1 / 2) None)"
    by simp
  from n ok cats same show ?thesis by blast
qed

end
